theory Spec2Isabelle
  imports Main
begin

section \<open>IntroSlides: the slide sequencer\<close>

text \<open>
  The component of \<^verbatim>\<open>components/IntroSlides.js\<close> together with the part of the browser it
  drives: the clock read by \<^verbatim>\<open>Date.now()\<close>, the pending \<^verbatim>\<open>setTimeout\<close> callbacks and the
  calls made to the handlers passed in by the page.

  JavaScript runs one task of the event loop at a time: first the synchronous code of the
  task (page code that calls methods of the component, a listener, a timer callback), then
  the promise reactions queued meanwhile, in order, until none is left.  An \<^verbatim>\<open>async\<close>
  method runs synchronously up to its first \<^verbatim>\<open>await\<close>.  At \<^verbatim>\<open>await this.wait(d)\<close> it is
  suspended on a timer; what it does when the timer fires is recorded with the timer as a
  continuation, and a timer removed by \<^verbatim>\<open>clearTimeout\<close> never resolves its promise, so its
  continuation never runs.  At \<^verbatim>\<open>await this.showSlide(i)\<close> a play loop is suspended even when
  \<^verbatim>\<open>showSlide\<close> has finished at once: the rest of the loop is then a queued reaction, which
  runs after the synchronous code of the task.

  A handler passed in by the page is modelled by whether its call returns or raises; a
  handler that calls methods of the component from inside is not modelled.

  Left out: the progress bar, the ARIA attributes and the live region, the glyph and
  position of a floating heart (they are written to the DOM and never read back).
\<close>

subsection \<open>Data\<close>

datatype jsval = Num int | ThisComponent

type_synonym obj = "(string \<times> jsval) list"

datatype event =
    SlideStart int "string option"
  | SlideComplete int "string option"
  | Progress int int
  | SequenceComplete obj
  | Dispatched string obj
  | ConsoleError string
  | UnhandledRejection
  | UncaughtException

text \<open>
  A handler is \<^verbatim>\<open>null\<close> (\<open>None\<close>) or a function of the page; all the model keeps of the
  function is whether a call raises (for a slide handler: at which index).
\<close>

record handlers =
  onSlideStart :: "(int \<Rightarrow> bool) option"
  onSlideComplete :: "(int \<Rightarrow> bool) option"
  onSequenceComplete :: "bool option"
  onProgress :: "(int \<Rightarrow> bool) option"

record config =
  messages :: "string list"
  slideDelay :: int
  transitionDuration :: int
  autoStart :: bool
  enableHeartEffects :: bool
  accessibilityMode :: bool

record seq_state =
  currentSlide :: int
  isPlaying :: bool
  isPaused :: bool
  isCompleted :: bool
  startTime :: "int option"
  timeouts :: "nat list"

record slide_el =
  cls_active :: bool
  cls_exiting :: bool
  visibility :: string
  opacity :: string

record section_el =
  cls_hidden :: bool
  cls_fade_out :: bool
  cls_fade_in :: bool

text \<open>
  Which loop a suspended \<^verbatim>\<open>showSlide\<close> returns to: \<^verbatim>\<open>playSequence\<close> and \<^verbatim>\<open>continueSequence\<close>
  \<^verbatim>\<open>await\<close> it, \<^verbatim>\<open>nextSlide\<close> drops its promise.
\<close>

datatype loop = PlaySequence | ContinueSequence

datatype caller = Awaited loop | NotAwaited

text \<open>
  The callbacks handed to \<^verbatim>\<open>setTimeout\<close>.  The first three resolve the promise of a
  \<^verbatim>\<open>wait\<close>: in \<^verbatim>\<open>showSlide(index)\<close> (with the captured \<^verbatim>\<open>previousIndex\<close>), between two slides
  of a loop with loop variable \<open>i\<close>, and before the \<^verbatim>\<open>complete()\<close> that ends a loop.  The
  heart callbacks carry the caller of the \<^verbatim>\<open>showSlide\<close> that scheduled them.
\<close>

datatype kont =
    ShowSlideTransition caller int int
  | LoopDelay loop int
  | FinalWait loop
  | HeartSpawn caller
  | HeartRemove caller
  | AutoHide
  | HideEnd
  | ErrorReveal nat
  | ErrorComplete

record timer =
  tid :: nat
  due :: int
  kont :: kont

text \<open>
  The queued promise reactions: a play loop goes on after \<^verbatim>\<open>await this.showSlide(i)\<close>, the
  awaited \<^verbatim>\<open>showSlide\<close> was rejected and the exception leaves the loop, and the \<^verbatim>\<open>catch\<close>
  of \<^verbatim>\<open>start()\<close> runs.
\<close>

datatype job = LoopResume loop int | LoopReject loop | StartCatch

record world =
  config :: config
  state :: seq_state
  eventHandlers :: handlers
  slides :: "slide_el list"
  sectionEl :: "section_el option"
  now :: int
  pending :: "timer list"
  nextTimer :: nat
  microtasks :: "job list"
  heartDelays :: "nat \<Rightarrow> int list"
  heartCalls :: nat
  trace :: "event list"

text \<open>
  How the synchronous part of a call ends: it returned, it raised, or it is suspended in
  an \<^verbatim>\<open>await\<close>.  For the \<^verbatim>\<open>async\<close> \<^verbatim>\<open>showSlide\<close> these are the states of its promise on
  return: fulfilled, rejected, pending.
\<close>

datatype completion = Returned world | Threw world | Suspended world

definition and_then :: "completion \<Rightarrow> (world \<Rightarrow> completion) \<Rightarrow> completion" where
  "and_then r f = (case r of Returned w \<Rightarrow> f w | Threw w \<Rightarrow> Threw w | Suspended w \<Rightarrow> Suspended w)"

fun world_of :: "completion \<Rightarrow> world" where
  "world_of (Returned w) = w"
| "world_of (Threw w) = w"
| "world_of (Suspended w) = w"

definition emit :: "event \<Rightarrow> world \<Rightarrow> world" where
  "emit e w = w\<lparr>trace := trace w @ [e]\<rparr>"

definition enqueue :: "job \<Rightarrow> world \<Rightarrow> world" where
  "enqueue j w = w\<lparr>microtasks := microtasks w @ [j]\<rparr>"

definition invoke :: "(int \<Rightarrow> bool) option \<Rightarrow> int \<Rightarrow> event \<Rightarrow> world \<Rightarrow> completion" where
  "invoke handler i e w =
     (case handler of
        None \<Rightarrow> Returned w
      | Some raises \<Rightarrow> (if raises i then Threw (emit e w) else Returned (emit e w)))"

subsection \<open>Timers\<close>

text \<open>\<^verbatim>\<open>setTimeout(callback, delay)\<close>; a negative delay counts as zero.\<close>

definition setTimeout :: "kont \<Rightarrow> int \<Rightarrow> world \<Rightarrow> world" where
  "setTimeout k delay w =
     w\<lparr>pending := pending w @ [\<lparr>tid = nextTimer w, due = now w + max 0 delay, kont = k\<rparr>],
       nextTimer := Suc (nextTimer w)\<rparr>"

text \<open>
  \<^verbatim>\<open>wait(duration)\<close>: the timer is also pushed on \<^verbatim>\<open>state.timeouts\<close>.
\<close>

definition wait :: "kont \<Rightarrow> int \<Rightarrow> world \<Rightarrow> world" where
  "wait k duration w =
     (let w' = setTimeout k duration w
      in w'\<lparr>state := (state w')\<lparr>timeouts := timeouts (state w') @ [nextTimer w]\<rparr>\<rparr>)"

definition clearTimeouts :: "world \<Rightarrow> world" where
  "clearTimeouts w =
     w\<lparr>pending := filter (\<lambda>t. tid t \<notin> set (timeouts (state w))) (pending w),
       state := (state w)\<lparr>timeouts := []\<rparr>\<rparr>"

subsection \<open>Showing a slide\<close>

definition in_range :: "int \<Rightarrow> 'a list \<Rightarrow> bool" where
  "in_range i xs = (0 \<le> i \<and> i < int (length xs))"

definition message_at :: "world \<Rightarrow> int \<Rightarrow> string option" where
  "message_at w index =
     (if in_range index (messages (config w)) then Some (messages (config w) ! nat index) else None)"

definition upd_slide :: "int \<Rightarrow> (slide_el \<Rightarrow> slide_el) \<Rightarrow> world \<Rightarrow> world" where
  "upd_slide i f w =
     (if in_range i (slides w) then w\<lparr>slides := (slides w)[nat i := f (slides w ! nat i)]\<rparr> else w)"

text \<open>
  \<^verbatim>\<open>addHeartEffect\<close> draws \<^verbatim>\<open>Math.random() * 3 + 2\<close> for the number of hearts and
  \<^verbatim>\<open>Math.random() * 1000\<close> for the delay of each: \<open>heartDelays w n\<close> lists the delays drawn
  by the \<open>n\<close>-th call (in the source between two and five of them, each below 1000).
  The timers are not pushed on \<^verbatim>\<open>state.timeouts\<close>.
\<close>

definition addHeartEffect :: "caller \<Rightarrow> world \<Rightarrow> world" where
  "addHeartEffect c w =
     (if accessibilityMode (config w) then w
      else fold (setTimeout (HeartSpawn c)) (heartDelays w (heartCalls w))
             (w\<lparr>heartCalls := Suc (heartCalls w)\<rparr>))"

definition createFloatingHeart :: "caller \<Rightarrow> world \<Rightarrow> world" where
  "createFloatingHeart c w = setTimeout (HeartRemove c) 3000 w"

definition showSlide :: "caller \<Rightarrow> int \<Rightarrow> world \<Rightarrow> completion" where
  "showSlide c index w =
     (if index < 0 \<or> index \<ge> int (length (slides w)) then Returned w
      else
        (let previousIndex = currentSlide (state w);
             w1 = w\<lparr>state := (state w)\<lparr>currentSlide := index\<rparr>\<rparr>
         in and_then
              (invoke (onSlideStart (eventHandlers w1)) index
                 (SlideStart index (message_at w1 index)) w1)
              (\<lambda>w2.
                 let w3 = upd_slide previousIndex
                            (\<lambda>s. s\<lparr>cls_active := False, cls_exiting := True\<rparr>) w2;
                     w4 = upd_slide index
                            (\<lambda>s. s\<lparr>visibility := ''visible'', cls_active := True\<rparr>) w3;
                     w5 = (if enableHeartEffects (config w4) then addHeartEffect c w4 else w4)
                 in Suspended
                      (wait (ShowSlideTransition c index previousIndex)
                         (transitionDuration (config w5)) w5))))"

text \<open>The rest of \<^verbatim>\<open>showSlide\<close>, run when the transition timer fires.\<close>

definition showSlide_finish :: "int \<Rightarrow> int \<Rightarrow> world \<Rightarrow> completion" where
  "showSlide_finish index previousIndex w =
     (let w1 = upd_slide previousIndex
                 (\<lambda>s. s\<lparr>cls_exiting := False, visibility := ''hidden''\<rparr>) w
      in and_then
           (invoke (onSlideComplete (eventHandlers w1)) index
              (SlideComplete index (message_at w1 index)) w1)
           (\<lambda>w2. invoke (onProgress (eventHandlers w2)) index
                    (Progress (index + 1) (int (length (messages (config w2))))) w2))"

subsection \<open>Completion and the error fallback\<close>

definition hide :: "world \<Rightarrow> world" where
  "hide w =
     (case sectionEl w of
        None \<Rightarrow> w
      | Some sec \<Rightarrow>
          setTimeout HideEnd (transitionDuration (config w))
            (w\<lparr>sectionEl := Some (sec\<lparr>cls_fade_out := True\<rparr>)\<rparr>))"

definition hide_end :: "world \<Rightarrow> world" where
  "hide_end w =
     (case sectionEl w of
        None \<Rightarrow> w
      | Some sec \<Rightarrow> w\<lparr>sectionEl := Some (sec\<lparr>cls_hidden := True, cls_fade_out := False\<rparr>)\<rparr>)"

definition show_section :: "world \<Rightarrow> world" where
  "show_section w =
     (case sectionEl w of
        None \<Rightarrow> w
      | Some sec \<Rightarrow> w\<lparr>sectionEl := Some (sec\<lparr>cls_hidden := False, cls_fade_in := True\<rparr>)\<rparr>)"

text \<open>\<^verbatim>\<open>Date.now() - this.state.startTime\<close>; a \<^verbatim>\<open>null\<close> start time counts as 0.\<close>

definition elapsed :: "world \<Rightarrow> int" where
  "elapsed w = now w - (case startTime (state w) of None \<Rightarrow> 0 | Some t \<Rightarrow> t)"

definition complete :: "world \<Rightarrow> completion" where
  "complete w =
     (let w1 = w\<lparr>state := (state w)\<lparr>isPlaying := False, isPaused := False, isCompleted := True\<rparr>\<rparr>
      in and_then
           (case onSequenceComplete (eventHandlers w1) of
              None \<Rightarrow> Returned w1
            | Some raises \<Rightarrow>
                (let w2 = emit (SequenceComplete
                                 [(''duration'', Num (elapsed w1)),
                                  (''slideCount'', Num (int (length (messages (config w1)))))]) w1
                 in if raises then Threw w2 else Returned w2))
           (\<lambda>w3. Returned
                   (setTimeout AutoHide 1000
                      (emit (Dispatched ''introSlidesComplete''
                               [(''component'', ThisComponent), (''duration'', Num (elapsed w3))])
                         w3))))"

definition handleError :: "world \<Rightarrow> world" where
  "handleError w =
     (let w1 = emit (ConsoleError ''IntroSlides error:'') w;
          w2 = w1\<lparr>state := (state w1)\<lparr>isPlaying := False\<rparr>\<rparr>;
          w3 = fold (\<lambda>index. setTimeout (ErrorReveal index) (int index * 200))
                 [0..<length (slides w2)] w2
      in setTimeout ErrorComplete (int (length (messages (config w3))) * 200 + 1000) w3)"

definition error_reveal :: "nat \<Rightarrow> world \<Rightarrow> world" where
  "error_reveal index w =
     upd_slide (int index) (\<lambda>s. s\<lparr>visibility := ''visible'', opacity := ''1'', cls_active := True\<rparr>) w"

subsection \<open>The two play loops\<close>

text \<open>
  \<^verbatim>\<open>await this.showSlide(i)\<close> in a loop: the loop waits for the transition timer of the
  slide, or for the reaction queued on a promise already fulfilled or rejected.
\<close>

definition await_showSlide :: "loop \<Rightarrow> int \<Rightarrow> completion \<Rightarrow> completion" where
  "await_showSlide l i r =
     (case r of
        Suspended w \<Rightarrow> Suspended w
      | Returned w \<Rightarrow> Suspended (enqueue (LoopResume l i) w)
      | Threw w \<Rightarrow> Suspended (enqueue (LoopReject l) w))"

text \<open>The code after the loop of \<^verbatim>\<open>playSequence\<close>, up to its \<^verbatim>\<open>await\<close>.\<close>

definition playSequence_end :: "world \<Rightarrow> completion" where
  "playSequence_end w =
     (if isPlaying (state w) \<and> \<not> isPaused (state w)
      then Suspended (wait (FinalWait PlaySequence) 400 w)
      else Returned w)"

text \<open>
  \<^verbatim>\<open>playSequence\<close>, entered at the head of the iteration with loop variable \<open>i\<close>: it runs
  up to the next \<^verbatim>\<open>await\<close>, which every iteration reaches.
\<close>

definition playSequence_from :: "int \<Rightarrow> world \<Rightarrow> completion" where
  "playSequence_from i w =
     (if i < int (length (messages (config w))) then
        (if \<not> isPlaying (state w) \<or> isPaused (state w) then playSequence_end w
         else await_showSlide PlaySequence i (showSlide (Awaited PlaySequence) i w))
      else playSequence_end w)"

text \<open>
  Where \<^verbatim>\<open>playSequence\<close> goes on after \<^verbatim>\<open>await this.showSlide(i)\<close> and after
  \<^verbatim>\<open>await this.wait(this.config.slideDelay)\<close>.
\<close>

definition playSequence_after_show :: "int \<Rightarrow> world \<Rightarrow> completion" where
  "playSequence_after_show i w =
     (if i < int (length (messages (config w))) - 1
      then Suspended (wait (LoopDelay PlaySequence i) (slideDelay (config w)) w)
      else playSequence_from (i + 1) w)"

definition playSequence_after_delay :: "int \<Rightarrow> world \<Rightarrow> completion" where
  "playSequence_after_delay i w = playSequence_from (i + 1) w"

definition playSequence :: "world \<Rightarrow> completion" where
  "playSequence w = playSequence_from 0 w"

definition continueSequence_end :: "world \<Rightarrow> completion" where
  "continueSequence_end w =
     (if isPlaying (state w) \<and> \<not> isPaused (state w)
      then Suspended (wait (FinalWait ContinueSequence) (slideDelay (config w)) w)
      else Returned w)"

definition continueSequence_from :: "int \<Rightarrow> world \<Rightarrow> completion" where
  "continueSequence_from i w =
     (if i < int (length (messages (config w))) then
        (if \<not> isPlaying (state w) \<or> isPaused (state w) then continueSequence_end w
         else await_showSlide ContinueSequence i (showSlide (Awaited ContinueSequence) i w))
      else continueSequence_end w)"

definition continueSequence_after_show :: "int \<Rightarrow> world \<Rightarrow> completion" where
  "continueSequence_after_show i w =
     (if i < int (length (messages (config w))) - 1
      then Suspended (wait (LoopDelay ContinueSequence i) (slideDelay (config w)) w)
      else continueSequence_from (i + 1) w)"

definition continueSequence_after_delay :: "int \<Rightarrow> world \<Rightarrow> completion" where
  "continueSequence_after_delay i w = continueSequence_from (i + 1) w"

definition continueSequence :: "world \<Rightarrow> completion" where
  "continueSequence w = continueSequence_from (currentSlide (state w) + 1) w"

subsection \<open>Where a rejected promise ends\<close>

text \<open>
  \<^verbatim>\<open>start()\<close> awaits \<^verbatim>\<open>playSequence()\<close> inside \<^verbatim>\<open>try\<close>/\<^verbatim>\<open>catch\<close>: when that loop ends with
  an exception, the \<^verbatim>\<open>catch\<close> is queued, to log the error and call \<^verbatim>\<open>handleError\<close>.
  \<^verbatim>\<open>resume()\<close> and \<^verbatim>\<open>nextSlide()\<close> drop the promise of \<^verbatim>\<open>continueSequence()\<close> and of
  \<^verbatim>\<open>showSlide()\<close>: a rejection is reported by the browser and nothing else happens.  An
  exception of a synchronous call made by a listener or a timer callback is reported
  likewise.
\<close>

definition loop_settled :: "loop \<Rightarrow> completion \<Rightarrow> world" where
  "loop_settled l r =
     (case r of
        Threw w \<Rightarrow> (case l of
                      PlaySequence \<Rightarrow> enqueue StartCatch w
                    | ContinueSequence \<Rightarrow> emit UnhandledRejection w)
      | Returned w \<Rightarrow> w
      | Suspended w \<Rightarrow> w)"

definition unhandled :: "completion \<Rightarrow> world" where
  "unhandled r =
     (case r of
        Threw w \<Rightarrow> emit UnhandledRejection w
      | Returned w \<Rightarrow> w
      | Suspended w \<Rightarrow> w)"

definition uncaught :: "completion \<Rightarrow> world" where
  "uncaught r =
     (case r of
        Threw w \<Rightarrow> emit UncaughtException w
      | Returned w \<Rightarrow> w
      | Suspended w \<Rightarrow> w)"

text \<open>A queued reaction runs.\<close>

fun run_job :: "job \<Rightarrow> world \<Rightarrow> world" where
  "run_job (LoopResume PlaySequence i) w = loop_settled PlaySequence (playSequence_after_show i w)"
| "run_job (LoopResume ContinueSequence i) w =
     loop_settled ContinueSequence (continueSequence_after_show i w)"
| "run_job (LoopReject l) w = loop_settled l (Threw w)"
| "run_job StartCatch w = handleError (emit (ConsoleError ''Error during slide sequence:'') w)"

text \<open>
  The reactions queued are run in order until none is left.  One reaction queues at most
  one more, which queues none, so twice the length of the queue is fuel enough.
\<close>

fun drain_fuel :: "nat \<Rightarrow> world \<Rightarrow> world" where
  "drain_fuel 0 w = w"
| "drain_fuel (Suc n) w =
     (case microtasks w of
        [] \<Rightarrow> w
      | j # js \<Rightarrow> drain_fuel n (run_job j (w\<lparr>microtasks := js\<rparr>)))"

definition drain :: "world \<Rightarrow> world" where
  "drain w = drain_fuel (2 * length (microtasks w)) w"

subsection \<open>A timer fires\<close>

text \<open>
  The callback of a timer.  When the transition timer of \<^verbatim>\<open>showSlide\<close> fires, the rest of
  \<^verbatim>\<open>showSlide\<close> runs and settles its promise, on which the loop that awaits it is queued.
\<close>

fun showSlide_settled :: "caller \<Rightarrow> int \<Rightarrow> completion \<Rightarrow> world" where
  "showSlide_settled (Awaited l) i r = world_of (await_showSlide l i r)"
| "showSlide_settled NotAwaited i r = unhandled r"

fun resume_kont :: "kont \<Rightarrow> world \<Rightarrow> world" where
  "resume_kont (ShowSlideTransition c index previousIndex) w =
     showSlide_settled c index (showSlide_finish index previousIndex w)"
| "resume_kont (LoopDelay PlaySequence i) w = loop_settled PlaySequence (playSequence_after_delay i w)"
| "resume_kont (LoopDelay ContinueSequence i) w =
     loop_settled ContinueSequence (continueSequence_after_delay i w)"
| "resume_kont (FinalWait l) w = loop_settled l (complete w)"
| "resume_kont (HeartSpawn c) w = createFloatingHeart c w"
| "resume_kont (HeartRemove c) w = w"
| "resume_kont AutoHide w = hide w"
| "resume_kont HideEnd w = hide_end w"
| "resume_kont (ErrorReveal index) w = error_reveal index w"
| "resume_kont ErrorComplete w = uncaught (complete w)"

text \<open>
  The timer \<open>t\<close> fires, if it is pending: the clock has reached its due time, the timer
  leaves the browser's list and its callback runs.
\<close>

definition fire :: "nat \<Rightarrow> world \<Rightarrow> world" where
  "fire t w =
     (case find (\<lambda>x. tid x = t) (pending w) of
        None \<Rightarrow> w
      | Some x \<Rightarrow>
          resume_kont (kont x)
            (w\<lparr>pending := filter (\<lambda>y. tid y \<noteq> t) (pending w), now := max (now w) (due x)\<rparr>))"

subsection \<open>The methods\<close>

text \<open>Each method up to its return to the caller; what it has queued runs later.\<close>

definition resetSlides :: "world \<Rightarrow> world" where
  "resetSlides w =
     w\<lparr>slides := map (\<lambda>s. s\<lparr>cls_active := False, cls_exiting := False,
                              visibility := ''hidden'', opacity := ''0''\<rparr>) (slides w),
       state := (state w)\<lparr>currentSlide := - 1, isCompleted := False\<rparr>\<rparr>"

definition start :: "world \<Rightarrow> world" where
  "start w =
     (if isPlaying (state w) \<or> isCompleted (state w) then w
      else
        (let w1 = w\<lparr>state := (state w)\<lparr>isPlaying := True, isPaused := False,
                                          startTime := Some (now w)\<rparr>\<rparr>;
             w2 = (case sectionEl w1 of
                     None \<Rightarrow> w1
                   | Some sec \<Rightarrow> w1\<lparr>sectionEl := Some (sec\<lparr>cls_hidden := False\<rparr>)\<rparr>)
         in loop_settled PlaySequence (playSequence w2)))"

definition pause :: "world \<Rightarrow> world" where
  "pause w =
     (if \<not> isPlaying (state w) \<or> isPaused (state w) then w
      else clearTimeouts (w\<lparr>state := (state w)\<lparr>isPaused := True\<rparr>\<rparr>))"

definition resume :: "world \<Rightarrow> world" where
  "resume w =
     (if \<not> isPlaying (state w) \<or> \<not> isPaused (state w) then w
      else loop_settled ContinueSequence
             (continueSequence (w\<lparr>state := (state w)\<lparr>isPaused := False\<rparr>\<rparr>)))"

definition nextSlide :: "world \<Rightarrow> world" where
  "nextSlide w =
     (if \<not> isPlaying (state w)
         \<or> currentSlide (state w) \<ge> int (length (messages (config w))) - 1 then w
      else
        (let w1 = clearTimeouts w
         in unhandled (showSlide NotAwaited (currentSlide (state w1) + 1) w1)))"

definition skip :: "world \<Rightarrow> completion" where
  "skip w = complete (clearTimeouts w)"

definition stop :: "world \<Rightarrow> world" where
  "stop w = clearTimeouts (w\<lparr>state := (state w)\<lparr>isPlaying := False, isPaused := False\<rparr>\<rparr>)"

definition restart :: "world \<Rightarrow> world" where
  "restart w = start (resetSlides (stop w))"

subsection \<open>The listeners installed by \<^verbatim>\<open>setupEventListeners\<close>\<close>

datatype key = Escape | Space | Enter | ArrowRight | OtherKey

definition keydown :: "key \<Rightarrow> world \<Rightarrow> world" where
  "keydown k w =
     (if isPlaying (state w) then
        (case k of
           Escape \<Rightarrow> uncaught (skip w)
         | Space \<Rightarrow> (if isPaused (state w) then resume w else pause w)
         | Enter \<Rightarrow> (if isPaused (state w) then resume w else pause w)
         | ArrowRight \<Rightarrow> nextSlide w
         | OtherKey \<Rightarrow> w)
      else w)"

definition click :: "world \<Rightarrow> world" where
  "click w = (if isPlaying (state w) \<and> \<not> isPaused (state w) then nextSlide w else w)"

definition visibilitychange :: "bool \<Rightarrow> world \<Rightarrow> world" where
  "visibilitychange hidden w =
     (if hidden \<and> isPlaying (state w) then pause w
      else if \<not> hidden \<and> isPaused (state w) then resume w
      else w)"

subsection \<open>Construction\<close>

record options =
  opt_messages :: "string list option"
  opt_slideDelay :: "int option"
  opt_transitionDuration :: "int option"
  opt_autoStart :: "bool option"
  opt_enableHeartEffects :: "bool option"
  opt_accessibilityMode :: "bool option"
  opt_handlers :: handlers

text \<open>\<^verbatim>\<open>options.x || d\<close> takes the default also for 0 and \<^verbatim>\<open>false\<close>; an array is never falsy.\<close>

definition or_default :: "int option \<Rightarrow> int \<Rightarrow> int" where
  "or_default v d = (case v of None \<Rightarrow> d | Some x \<Rightarrow> (if x = 0 then d else x))"

definition default_messages :: "string list" where
  "default_messages = [''Hi'', ''Happy'', ''Valentine'' @ [CHR 0x27] @ ''s'', ''Day'', ''Babe'']"

definition make_config :: "options \<Rightarrow> config" where
  "make_config opts =
     \<lparr>messages = (case opt_messages opts of None \<Rightarrow> default_messages | Some m \<Rightarrow> m),
      slideDelay = or_default (opt_slideDelay opts) 800,
      transitionDuration = or_default (opt_transitionDuration opts) 800,
      autoStart = (opt_autoStart opts \<noteq> Some False),
      enableHeartEffects = (opt_enableHeartEffects opts \<noteq> Some False),
      accessibilityMode = (case opt_accessibilityMode opts of None \<Rightarrow> False | Some b \<Rightarrow> b)\<rparr>"

text \<open>
  What the constructor finds in the page: the \<^verbatim>\<open>.slide\<close> elements of the container (\<open>None\<close>
  when the container is missing), the enclosing section, and the reduced-motion
  preference; and what it finds in the browser: the clock and the draws of
  \<^verbatim>\<open>Math.random\<close>.
\<close>

record page =
  container :: "slide_el list option"
  enclosing_section :: "section_el option"
  prefersReducedMotion :: bool

definition setupAccessibility :: "bool \<Rightarrow> world \<Rightarrow> world" where
  "setupAccessibility reduced w =
     (if reduced
      then w\<lparr>config := (config w)\<lparr>accessibilityMode := True, slideDelay := 800,
                                        transitionDuration := 200\<rparr>\<rparr>
      else w)"

definition new_IntroSlides :: "options \<Rightarrow> page \<Rightarrow> int \<Rightarrow> (nat \<Rightarrow> int list) \<Rightarrow> world" where
  "new_IntroSlides opts pg t0 draws =
     (let w0 = \<lparr>config = make_config opts,
                state = \<lparr>currentSlide = - 1, isPlaying = False, isPaused = False,
                          isCompleted = False, startTime = None, timeouts = []\<rparr>,
                eventHandlers = opt_handlers opts,
                slides = [], sectionEl = None, now = t0, pending = [], nextTimer = 0,
                microtasks = [], heartDelays = draws, heartCalls = 0, trace = []\<rparr>
      in case container pg of
           None \<Rightarrow> emit (ConsoleError ''IntroSlides initialization failed:'') w0
         | Some els \<Rightarrow>
             (if els = []
              then emit (ConsoleError ''IntroSlides initialization failed:'')
                     (w0\<lparr>sectionEl := enclosing_section pg\<rparr>)
              else
                (let w1 = resetSlides (w0\<lparr>sectionEl := enclosing_section pg, slides := els\<rparr>);
                     w2 = setupAccessibility (prefersReducedMotion pg) w1
                 in if autoStart (config w2) then start w2 else w2)))"

subsection \<open>Tasks of the event loop\<close>

text \<open>
  Page code calls methods one after the other within one task; an exception of
  \<^verbatim>\<open>skip()\<close> or \<^verbatim>\<open>complete()\<close> ends it.  The other methods return normally (the
  \<^verbatim>\<open>async\<close> ones return a promise).
\<close>

datatype call =
    CallStart | CallPause | CallResume | CallNextSlide | CallSkip | CallComplete
  | CallStop | CallRestart | CallResetSlides | CallHide | CallShow

fun do_call :: "call \<Rightarrow> world \<Rightarrow> completion" where
  "do_call CallStart w = Returned (start w)"
| "do_call CallPause w = Returned (pause w)"
| "do_call CallResume w = Returned (resume w)"
| "do_call CallNextSlide w = Returned (nextSlide w)"
| "do_call CallSkip w = skip w"
| "do_call CallComplete w = complete w"
| "do_call CallStop w = Returned (stop w)"
| "do_call CallRestart w = Returned (restart w)"
| "do_call CallResetSlides w = Returned (resetSlides w)"
| "do_call CallHide w = Returned (hide w)"
| "do_call CallShow w = Returned (show_section w)"

fun script :: "call list \<Rightarrow> world \<Rightarrow> world" where
  "script [] w = w"
| "script (c # cs) w =
     (case do_call c w of
        Threw w' \<Rightarrow> emit UncaughtException w'
      | Returned w' \<Rightarrow> script cs w'
      | Suspended w' \<Rightarrow> script cs w')"

text \<open>
  A task: page code, a listener of the component, a timer, or time passing; the queued
  reactions run at its end.
\<close>

datatype task =
    Script "call list"
  | KeyDown key | Click | VisibilityChange bool
  | TimerFires nat
  | Elapse nat

fun perform :: "task \<Rightarrow> world \<Rightarrow> world" where
  "perform (Script cs) w = drain (script cs w)"
| "perform (KeyDown k) w = drain (keydown k w)"
| "perform Click w = drain (click w)"
| "perform (VisibilityChange hidden) w = drain (visibilitychange hidden w)"
| "perform (TimerFires t) w = drain (fire t w)"
| "perform (Elapse ms) w = w\<lparr>now := now w + int ms\<rparr>"

text \<open>
  The browser left alone: of the pending timers the one due first fires, the one set
  first among those due together.
\<close>

fun earliest :: "timer list \<Rightarrow> timer option" where
  "earliest [] = None"
| "earliest (t # ts) =
     (case earliest ts of
        None \<Rightarrow> Some t
      | Some u \<Rightarrow> (if due u < due t then Some u else Some t))"

fun run :: "nat \<Rightarrow> world \<Rightarrow> world" where
  "run 0 w = w"
| "run (Suc n) w =
     (case earliest (pending w) of
        None \<Rightarrow> w
      | Some t \<Rightarrow> run n (perform (TimerFires (tid t)) w))"

section \<open>LetterDisplay: the typewriter reveal of one paragraph\<close>

text \<open>
  \<^verbatim>\<open>LetterDisplay.animateParagraph\<close> (main.js).  A paragraph element is modelled by the
  list of its child nodes and the inline style and class the function touches.  A
  \<^typ>\<open>char\<close> stands for one code unit of the JavaScript string; the separator and the
  punctuation looked for are ASCII.
\<close>

datatype node = TextNode string | Element string string

fun node_text :: "node \<Rightarrow> string" where
  "node_text (TextNode s) = s"
| "node_text (Element cls s) = s"

fun set_node_text :: "string \<Rightarrow> node \<Rightarrow> node" where
  "set_node_text s (TextNode _) = TextNode s"
| "set_node_text s (Element cls _) = Element cls s"

record paragraph_el =
  childNodes :: "node list"
  p_visibility :: string
  p_opacity :: string
  p_transform :: string
  p_transition :: string
  p_animation :: string
  p_classes :: "string list"

definition textContent :: "paragraph_el \<Rightarrow> string" where
  "textContent p = concat (map node_text (childNodes p))"

definition set_textContent :: "string \<Rightarrow> paragraph_el \<Rightarrow> paragraph_el" where
  "set_textContent s p = p\<lparr>childNodes := (if s = [] then [] else [TextNode s])\<rparr>"

text \<open>\<^verbatim>\<open>str.split(' ')\<close> and \<^verbatim>\<open>words.join(' ')\<close>.\<close>

fun split_space :: "string \<Rightarrow> string list" where
  "split_space [] = [[]]"
| "split_space (c # cs) =
     (if c = CHR '' '' then [] # split_space cs
      else (case split_space cs of
              [] \<Rightarrow> [[c]]
            | w # ws \<Rightarrow> (c # w) # ws))"

fun join_space :: "string list \<Rightarrow> string" where
  "join_space [] = []"
| "join_space [w] = w"
| "join_space (w # v # ws) = w @ '' '' @ join_space (v # ws)"

definition includes_char :: "string \<Rightarrow> char \<Rightarrow> bool" where
  "includes_char word c = (c \<in> set word)"

text \<open>
  \<^verbatim>\<open>word.includes('.') || word.includes('!') || word.includes('?')
     ? this.config.typewriterSpeed * 3 : this.config.typewriterSpeed\<close>
\<close>

definition word_delay :: "int \<Rightarrow> string \<Rightarrow> int" where
  "word_delay typewriterSpeed word =
     (if includes_char word CHR ''.'' \<or> includes_char word CHR ''!'' \<or> includes_char word CHR ''?''
      then typewriterSpeed * 3
      else typewriterSpeed)"

text \<open>The reading of the specification: the word ends with terminal punctuation.\<close>

definition ends_with_terminal :: "string \<Rightarrow> bool" where
  "ends_with_terminal word =
     (word \<noteq> [] \<and> (last word = CHR ''.'' \<or> last word = CHR ''!'' \<or> last word = CHR ''?''))"

datatype js_error = TypeError

text \<open>\<^verbatim>\<open>paragraph.childNodes[0].textContent = s\<close>: a TypeError when there is no child.\<close>

definition set_first_child_text :: "string \<Rightarrow> paragraph_el \<Rightarrow> js_error + paragraph_el" where
  "set_first_child_text s p =
     (case childNodes p of
        [] \<Rightarrow> Inl TypeError
      | n # ns \<Rightarrow> Inr (p\<lparr>childNodes := set_node_text s n # ns\<rparr>))"

text \<open>
  The word loop.  Between two words the function is suspended in \<^verbatim>\<open>wait(delay)\<close>, where
  the rest of the page may clear \<^verbatim>\<open>state.typewriterActive\<close>: \<open>active i\<close> is the value of the
  flag read at the head of iteration \<open>i\<close>.  The list collects the delays waited for.
\<close>

function type_words ::
  "(nat \<Rightarrow> bool) \<Rightarrow> int \<Rightarrow> string list \<Rightarrow> nat \<Rightarrow> paragraph_el \<Rightarrow> int list
     \<Rightarrow> js_error + (paragraph_el \<times> int list)" where
  "type_words active typewriterSpeed words i p delays =
     (if i < length words then
        (if \<not> active i then Inr (p, delays)
         else
           (case set_first_child_text (join_space (take (i + 1) words) @ '' '') p of
              Inl e \<Rightarrow> Inl e
            | Inr p' \<Rightarrow>
                type_words active typewriterSpeed words (i + 1) p'
                  (delays @ [word_delay typewriterSpeed (words ! i)])))
      else Inr (p, delays))"
  by pat_completeness auto
termination
  by (relation "measure (\<lambda>(active, speed, words, i, p, delays). length words - i)") auto

declare type_words.simps [simp del]

definition cursor :: node where
  "cursor = Element ''typewriter-cursor'' ''|''"

fun is_cursor :: "node \<Rightarrow> bool" where
  "is_cursor (Element cls _) = (cls = ''typewriter-cursor'')"
| "is_cursor (TextNode _) = False"

definition animateParagraph ::
  "(nat \<Rightarrow> bool) \<Rightarrow> int \<Rightarrow> paragraph_el \<Rightarrow> js_error + (paragraph_el \<times> int list)" where
  "animateParagraph active typewriterSpeed paragraph =
     (let originalText = textContent paragraph;
          words = split_space originalText;
          p1 = paragraph\<lparr>p_visibility := ''visible'', p_opacity := ''1'',
                 p_transform := ''translateY(0)'',
                 p_transition := ''opacity 0.3s ease, transform 0.3s ease''\<rparr>;
          p2 = set_textContent [] p1;
          p3 = p2\<lparr>childNodes := childNodes p2 @ [cursor]\<rparr>
      in case type_words active typewriterSpeed words 0 p3 [] of
           Inl e \<Rightarrow> Inl e
         | Inr (p4, delays) \<Rightarrow>
             (let p5 = p4\<lparr>childNodes := filter (\<lambda>n. \<not> is_cursor n) (childNodes p4)\<rparr>;
                  p6 = set_textContent originalText p5;
                  p7 = p6\<lparr>p_opacity := ''1'', p_visibility := ''visible'',
                         p_transform := ''translateY(0)''\<rparr>;
                  p8 = p7\<lparr>p_classes := (if ''typed-complete'' \<in> set (p_classes p7)
                                          then p_classes p7
                                          else p_classes p7 @ [''typed-complete''])\<rparr>
              in Inr (p8\<lparr>p_animation := ''paragraph-complete 0.3s ease''\<rparr>, delays)))"

text \<open>A paragraph used to run the reveal on.\<close>

definition letter_line :: paragraph_el where
  "letter_line = \<lparr>childNodes = [TextNode ''My dear. You are loved''], p_visibility = ''hidden'',
      p_opacity = ''0'', p_transform = ''translateY(20px)'', p_transition = [], p_animation = [],
      p_classes = []\<rparr>"

section \<open>Notions used in the properties\<close>

text \<open>
  The four states of the specification, read off the three flags of the component.
\<close>

datatype status = Idle | Playing | Paused | Completed

definition status :: "world \<Rightarrow> status" where
  "status w =
     (if isPlaying (state w) then (if isPaused (state w) then Paused else Playing)
      else if isCompleted (state w) then Completed
      else Idle)"

text \<open>
  The callbacks scheduled through \<^verbatim>\<open>wait\<close>, which records them in \<^verbatim>\<open>state.timeouts\<close>;
  the others are scheduled with a bare \<^verbatim>\<open>setTimeout\<close>.
\<close>

fun tracked :: "kont \<Rightarrow> bool" where
  "tracked (ShowSlideTransition c i p) = True"
| "tracked (LoopDelay l i) = True"
| "tracked (FinalWait l) = True"
| "tracked _ = False"

text \<open>
  A property of the world is stable when the elementary updates made by the callbacks
  and the queued reactions keep it.
\<close>

definition stable :: "(world \<Rightarrow> bool) \<Rightarrow> bool" where
  "stable I \<longleftrightarrow>
     (\<forall>w e. I w \<longrightarrow> I (emit e w)) \<and>
     (\<forall>w j. I w \<longrightarrow> I (enqueue j w)) \<and>
     (\<forall>w js. I w \<longrightarrow> I (w\<lparr>microtasks := js\<rparr>)) \<and>
     (\<forall>w k d. I w \<and> \<not> tracked k \<longrightarrow> I (setTimeout k d w)) \<and>
     (\<forall>w k d. I w \<and> tracked k \<longrightarrow> I (wait k d w)) \<and>
     (\<forall>w s. I w \<and> timeouts s = timeouts (state w)
             \<and> (isPlaying s \<longrightarrow> isPlaying (state w)) \<and> (isPaused s \<longrightarrow> isPaused (state w))
             \<longrightarrow> I (w\<lparr>state := s\<rparr>)) \<and>
     (\<forall>w xs. I w \<and> length xs = length (slides w) \<longrightarrow> I (w\<lparr>slides := xs\<rparr>)) \<and>
     (\<forall>w s. I w \<longrightarrow> I (w\<lparr>sectionEl := s\<rparr>)) \<and>
     (\<forall>w n. I w \<longrightarrow> I (w\<lparr>heartCalls := n\<rparr>)) \<and>
     (\<forall>w P. I w \<longrightarrow> I (w\<lparr>pending := filter P (pending w)\<rparr>)) \<and>
     (\<forall>w t. I w \<longrightarrow> I (w\<lparr>now := t\<rparr>))"

text \<open>
  Timer identifiers are unique and below the next one to be issued, and every pending
  timer of a \<^verbatim>\<open>wait\<close> is listed in \<^verbatim>\<open>state.timeouts\<close>.
\<close>

definition wf_timers :: "world \<Rightarrow> bool" where
  "wf_timers w \<longleftrightarrow>
     distinct (map tid (pending w)) \<and>
     (\<forall>t \<in> set (pending w). tid t < nextTimer w \<and> (tracked (kont t) \<longrightarrow> tid t \<in> set (timeouts (state w))))"

text \<open>
  Counting the completion signals in the trace, and whether a slide handler raises.
\<close>

fun is_SequenceComplete :: "event \<Rightarrow> bool" where
  "is_SequenceComplete (SequenceComplete payload) = True"
| "is_SequenceComplete _ = False"

fun is_broadcast :: "event \<Rightarrow> bool" where
  "is_broadcast (Dispatched name detail) = (name = ''introSlidesComplete'')"
| "is_broadcast _ = False"

definition completions :: "world \<Rightarrow> nat" where
  "completions w = length (filter is_SequenceComplete (trace w))"

definition broadcasts :: "world \<Rightarrow> nat" where
  "broadcasts w = length (filter is_broadcast (trace w))"

definition raises :: "(int \<Rightarrow> bool) option \<Rightarrow> int \<Rightarrow> bool" where
  "raises handler i = (case handler of None \<Rightarrow> False | Some f \<Rightarrow> f i)"

text \<open>
  The heart timers a \<^verbatim>\<open>showSlide\<close> sets in a world, and the call of \<^verbatim>\<open>onSlideStart\<close> it makes.
\<close>

definition heart_timers :: "caller \<Rightarrow> world \<Rightarrow> timer list" where
  "heart_timers c w =
     (if enableHeartEffects (config w) \<and> \<not> accessibilityMode (config w)
      then map (\<lambda>(j, d). \<lparr>tid = nextTimer w + j, due = now w + max 0 d, kont = HeartSpawn c\<rparr>)
             (zip [0..<length (heartDelays w (heartCalls w))] (heartDelays w (heartCalls w)))
      else [])"

definition start_events :: "world \<Rightarrow> int \<Rightarrow> event list" where
  "start_events w i =
     (case onSlideStart (eventHandlers w) of
        None \<Rightarrow> []
      | Some f \<Rightarrow> [SlideStart i (message_at w i)])"

text \<open>The reading of the specification of \<^verbatim>\<open>start()\<close>.\<close>

definition start_as_specified :: "world \<Rightarrow> world" where
  "start_as_specified w =
     (if status w = Playing \<or> status w = Completed then w
      else
        (let w1 = w\<lparr>state := (state w)\<lparr>isPlaying := True, isPaused := False,
                                          startTime := Some (now w), currentSlide := - 1\<rparr>\<rparr>;
             w2 = (case sectionEl w1 of
                     None \<Rightarrow> w1
                   | Some sec \<Rightarrow> w1\<lparr>sectionEl := Some (sec\<lparr>cls_hidden := False\<rparr>)\<rparr>)
         in loop_settled PlaySequence (playSequence w2)))"

text \<open>
  The scenario of the specification: three messages, 100 ms between slides, 50 ms of
  transition, every handler but \<^verbatim>\<open>onProgress\<close> installed, two hearts per slide.
\<close>

definition demo_handlers :: handlers where
  "demo_handlers = \<lparr>onSlideStart = Some (\<lambda>_. False), onSlideComplete = Some (\<lambda>_. False),
          onSequenceComplete = Some False, onProgress = None\<rparr>"
definition demo_options :: options where
  "demo_options = \<lparr>opt_messages = Some [''Hi'', ''Happy'', ''Day''], opt_slideDelay = Some 100,
     opt_transitionDuration = Some 50, opt_autoStart = Some False, opt_enableHeartEffects = None,
     opt_accessibilityMode = None, opt_handlers = demo_handlers\<rparr>"
definition blank_slide :: slide_el where
  "blank_slide = \<lparr>cls_active = False, cls_exiting = False, visibility = [], opacity = []\<rparr>"
definition demo_page :: page where
  "demo_page = \<lparr>container = Some [blank_slide, blank_slide, blank_slide], enclosing_section = None,
      prefersReducedMotion = False\<rparr>"
definition demo :: world where
  "demo = new_IntroSlides demo_options demo_page 0 (\<lambda>_. [10, 700])"

text \<open>
  A page with fewer slide elements than messages: four messages, two elements, no hearts.
\<close>

definition narrow_options :: options where
  "narrow_options = \<lparr>opt_messages = Some [''Hi'', ''Happy'', ''Day'', ''Babe''],
     opt_slideDelay = Some 100, opt_transitionDuration = Some 50, opt_autoStart = Some False,
     opt_enableHeartEffects = Some False, opt_accessibilityMode = None,
     opt_handlers = demo_handlers\<rparr>"
definition narrow_page :: page where
  "narrow_page = \<lparr>container = Some [blank_slide, blank_slide], enclosing_section = None,
      prefersReducedMotion = False\<rparr>"
definition narrow :: world where
  "narrow = new_IntroSlides narrow_options narrow_page 0 (\<lambda>_. [])"

text \<open>How many reactions the run of a queued reaction takes, counting the one it queues.\<close>

fun job_weight :: "job \<Rightarrow> nat" where
  "job_weight (LoopReject PlaySequence) = 2"
| "job_weight _ = 1"

text \<open>
  To compare the two play loops, the worlds are read up to the name of the loop that a
  pending callback or a queued reaction belongs to.
\<close>

fun as_play_caller :: "caller \<Rightarrow> caller" where
  "as_play_caller (Awaited l) = Awaited PlaySequence"
| "as_play_caller NotAwaited = NotAwaited"

fun as_play_kont :: "kont \<Rightarrow> kont" where
  "as_play_kont (ShowSlideTransition c i p) = ShowSlideTransition (as_play_caller c) i p"
| "as_play_kont (LoopDelay l i) = LoopDelay PlaySequence i"
| "as_play_kont (FinalWait l) = FinalWait PlaySequence"
| "as_play_kont (HeartSpawn c) = HeartSpawn (as_play_caller c)"
| "as_play_kont (HeartRemove c) = HeartRemove (as_play_caller c)"
| "as_play_kont AutoHide = AutoHide"
| "as_play_kont HideEnd = HideEnd"
| "as_play_kont (ErrorReveal i) = ErrorReveal i"
| "as_play_kont ErrorComplete = ErrorComplete"

fun as_play_job :: "job \<Rightarrow> job" where
  "as_play_job (LoopResume l i) = LoopResume PlaySequence i"
| "as_play_job (LoopReject l) = LoopReject PlaySequence"
| "as_play_job StartCatch = StartCatch"

definition blur :: "world \<Rightarrow> world" where
  "blur w = w\<lparr>pending := map (\<lambda>t. t\<lparr>kont := as_play_kont (kont t)\<rparr>) (pending w),
              microtasks := map as_play_job (microtasks w)\<rparr>"


section \<open>Properties of the slide sequencer\<close>

subsection \<open>What the elementary updates change\<close>

lemma emit_simps [simp]:
  "config (emit e w) = config w" "state (emit e w) = state w"
  "eventHandlers (emit e w) = eventHandlers w" "slides (emit e w) = slides w"
  "sectionEl (emit e w) = sectionEl w" "now (emit e w) = now w"
  "pending (emit e w) = pending w" "nextTimer (emit e w) = nextTimer w"
  "heartDelays (emit e w) = heartDelays w" "heartCalls (emit e w) = heartCalls w"
  "trace (emit e w) = trace w @ [e]" "microtasks (emit e w) = microtasks w"
  by (simp_all add: emit_def)

lemma enqueue_simps [simp]:
  "config (enqueue j w) = config w" "state (enqueue j w) = state w"
  "eventHandlers (enqueue j w) = eventHandlers w" "slides (enqueue j w) = slides w"
  "sectionEl (enqueue j w) = sectionEl w" "now (enqueue j w) = now w"
  "pending (enqueue j w) = pending w" "nextTimer (enqueue j w) = nextTimer w"
  "heartDelays (enqueue j w) = heartDelays w" "heartCalls (enqueue j w) = heartCalls w"
  "trace (enqueue j w) = trace w" "microtasks (enqueue j w) = microtasks w @ [j]"
  by (simp_all add: enqueue_def)

lemma setTimeout_simps [simp]:
  "config (setTimeout k d w) = config w" "state (setTimeout k d w) = state w"
  "eventHandlers (setTimeout k d w) = eventHandlers w" "slides (setTimeout k d w) = slides w"
  "sectionEl (setTimeout k d w) = sectionEl w" "now (setTimeout k d w) = now w"
  "pending (setTimeout k d w) = pending w @ [\<lparr>tid = nextTimer w, due = now w + max 0 d, kont = k\<rparr>]"
  "nextTimer (setTimeout k d w) = Suc (nextTimer w)"
  "heartDelays (setTimeout k d w) = heartDelays w" "heartCalls (setTimeout k d w) = heartCalls w"
  "trace (setTimeout k d w) = trace w" "microtasks (setTimeout k d w) = microtasks w"
  by (simp_all add: setTimeout_def)

lemma wait_simps [simp]:
  "config (wait k d w) = config w"
  "state (wait k d w) = (state w)\<lparr>timeouts := timeouts (state w) @ [nextTimer w]\<rparr>"
  "eventHandlers (wait k d w) = eventHandlers w" "slides (wait k d w) = slides w"
  "sectionEl (wait k d w) = sectionEl w" "now (wait k d w) = now w"
  "pending (wait k d w) = pending w @ [\<lparr>tid = nextTimer w, due = now w + max 0 d, kont = k\<rparr>]"
  "nextTimer (wait k d w) = Suc (nextTimer w)"
  "heartDelays (wait k d w) = heartDelays w" "heartCalls (wait k d w) = heartCalls w"
  "trace (wait k d w) = trace w" "microtasks (wait k d w) = microtasks w"
  by (simp_all add: wait_def Let_def)

lemma clearTimeouts_simps [simp]:
  "config (clearTimeouts w) = config w"
  "state (clearTimeouts w) = (state w)\<lparr>timeouts := []\<rparr>"
  "eventHandlers (clearTimeouts w) = eventHandlers w" "slides (clearTimeouts w) = slides w"
  "sectionEl (clearTimeouts w) = sectionEl w" "now (clearTimeouts w) = now w"
  "pending (clearTimeouts w) = filter (\<lambda>t. tid t \<notin> set (timeouts (state w))) (pending w)"
  "nextTimer (clearTimeouts w) = nextTimer w"
  "heartDelays (clearTimeouts w) = heartDelays w" "heartCalls (clearTimeouts w) = heartCalls w"
  "trace (clearTimeouts w) = trace w" "microtasks (clearTimeouts w) = microtasks w"
  by (simp_all add: clearTimeouts_def)

lemma upd_slide_simps [simp]:
  "config (upd_slide i f w) = config w" "state (upd_slide i f w) = state w"
  "eventHandlers (upd_slide i f w) = eventHandlers w"
  "length (slides (upd_slide i f w)) = length (slides w)"
  "sectionEl (upd_slide i f w) = sectionEl w" "now (upd_slide i f w) = now w"
  "pending (upd_slide i f w) = pending w" "nextTimer (upd_slide i f w) = nextTimer w"
  "heartDelays (upd_slide i f w) = heartDelays w" "heartCalls (upd_slide i f w) = heartCalls w"
  "trace (upd_slide i f w) = trace w" "microtasks (upd_slide i f w) = microtasks w"
  by (simp_all add: upd_slide_def)

lemma fold_setTimeout_simps [simp]:
  "config (fold (setTimeout k) ds w) = config w" "state (fold (setTimeout k) ds w) = state w"
  "eventHandlers (fold (setTimeout k) ds w) = eventHandlers w"
  "slides (fold (setTimeout k) ds w) = slides w"
  "sectionEl (fold (setTimeout k) ds w) = sectionEl w" "now (fold (setTimeout k) ds w) = now w"
  "nextTimer (fold (setTimeout k) ds w) = nextTimer w + length ds"
  "heartDelays (fold (setTimeout k) ds w) = heartDelays w"
  "heartCalls (fold (setTimeout k) ds w) = heartCalls w"
  "trace (fold (setTimeout k) ds w) = trace w"
  "microtasks (fold (setTimeout k) ds w) = microtasks w"
  by (induction ds arbitrary: w; simp)+

lemma pending_fold_setTimeout:
  "pending (fold (setTimeout k) ds w) =
     pending w @ map (\<lambda>(j, d). \<lparr>tid = nextTimer w + j, due = now w + max 0 d, kont = k\<rparr>)
                    (zip [0..<length ds] ds)"
proof (induction ds arbitrary: w)
  case Nil
  show ?case by simp
next
  case (Cons d ds)
  have "zip [0..<length (d # ds)] (d # ds) = (0, d) # zip (map Suc [0..<length ds]) ds"
    by (simp add: upt_conv_Cons map_Suc_upt del: upt_Suc)
  moreover have "zip (map Suc [0..<length ds]) ds = map (\<lambda>(j, d). (Suc j, d)) (zip [0..<length ds] ds)"
    by (simp add: zip_map1)
  ultimately show ?case
    by (simp add: Cons.IH case_prod_unfold comp_def)
qed

subsection \<open>Stable properties pass through every callback\<close>

lemma stable_emit: "stable I \<Longrightarrow> I w \<Longrightarrow> I (emit e w)"
  by (simp add: stable_def)
lemma stable_enqueue: "stable I \<Longrightarrow> I w \<Longrightarrow> I (enqueue j w)"
  by (simp add: stable_def)
lemma stable_microtasks: "stable I \<Longrightarrow> I w \<Longrightarrow> I (w\<lparr>microtasks := js\<rparr>)"
  by (simp add: stable_def)
lemma stable_setTimeout: "stable I \<Longrightarrow> \<not> tracked k \<Longrightarrow> I w \<Longrightarrow> I (setTimeout k d w)"
  by (simp add: stable_def)
lemma stable_wait: "stable I \<Longrightarrow> tracked k \<Longrightarrow> I w \<Longrightarrow> I (wait k d w)"
  by (simp add: stable_def)
lemma stable_state:
  "stable I \<Longrightarrow> I w \<Longrightarrow> timeouts s = timeouts (state w) \<Longrightarrow> (isPlaying s \<longrightarrow> isPlaying (state w))
   \<Longrightarrow> (isPaused s \<longrightarrow> isPaused (state w)) \<Longrightarrow> I (w\<lparr>state := s\<rparr>)"
  by (simp add: stable_def)
lemma stable_slides: "stable I \<Longrightarrow> I w \<Longrightarrow> length xs = length (slides w) \<Longrightarrow> I (w\<lparr>slides := xs\<rparr>)"
  by (simp add: stable_def)
lemma stable_sectionEl: "stable I \<Longrightarrow> I w \<Longrightarrow> I (w\<lparr>sectionEl := s\<rparr>)"
  by (simp add: stable_def)
lemma stable_heartCalls: "stable I \<Longrightarrow> I w \<Longrightarrow> I (w\<lparr>heartCalls := n\<rparr>)"
  by (simp add: stable_def)
lemma stable_filter: "stable I \<Longrightarrow> I w \<Longrightarrow> I (w\<lparr>pending := filter P (pending w)\<rparr>)"
  by (simp add: stable_def)
lemma stable_now: "stable I \<Longrightarrow> I w \<Longrightarrow> I (w\<lparr>now := t\<rparr>)"
  by (simp add: stable_def)

lemma stable_upd_slide: "stable I \<Longrightarrow> I w \<Longrightarrow> I (upd_slide i f w)"
  by (simp add: upd_slide_def stable_slides)

lemma stable_fold_setTimeout:
  "stable I \<Longrightarrow> \<not> tracked k \<Longrightarrow> I w \<Longrightarrow> I (fold (setTimeout k) ds w)"
  by (induction ds arbitrary: w) (simp_all add: stable_setTimeout)

lemma stable_addHeartEffect: "stable I \<Longrightarrow> I w \<Longrightarrow> I (addHeartEffect c w)"
  by (simp add: addHeartEffect_def stable_fold_setTimeout stable_heartCalls)

lemma stable_invoke: "stable I \<Longrightarrow> I w \<Longrightarrow> I (world_of (invoke h i e w))"
  by (simp add: invoke_def stable_emit split: option.splits)

lemma and_thenI:
  "I (world_of r) \<Longrightarrow> (\<And>w'. I w' \<Longrightarrow> I (world_of (f w'))) \<Longrightarrow> I (world_of (and_then r f))"
  by (cases r) (simp_all add: and_then_def)

lemma stable_showSlide:
  assumes st: "stable I" and w: "I w"
  shows "I (world_of (showSlide c i w))"
proof (cases "i < 0 \<or> i \<ge> int (length (slides w))")
  case True
  then show ?thesis using w by (simp add: showSlide_def)
next
  case False
  have 1: "I (w\<lparr>state := (state w)\<lparr>currentSlide := i\<rparr>\<rparr>)"
    using st w by (simp add: stable_state)
  have 2: "I (world_of (Suspended
                      (wait (ShowSlideTransition c i p) d
                         (if b then addHeartEffect c (upd_slide i f (upd_slide j g w2))
                          else upd_slide i f (upd_slide j g w2)))))"
    if "I w2" for w2 p d b f g j
    using that st
    by (simp add: stable_wait stable_addHeartEffect stable_upd_slide)
  show ?thesis
    using False
    by (simp add: showSlide_def Let_def) (intro and_thenI[where I=I] stable_invoke[OF st] 1 2)
qed

lemma stable_showSlide_finish:
  assumes st: "stable I" and w: "I w"
  shows "I (world_of (showSlide_finish i p w))"
  unfolding showSlide_finish_def Let_def
  by (intro and_thenI[where I=I] stable_invoke[OF st] stable_upd_slide[OF st] w)

lemma stable_complete:
  assumes st: "stable I" and w: "I w"
  shows "I (world_of (complete w))"
proof -
  have 1: "I (w\<lparr>state := (state w)\<lparr>isPlaying := False, isPaused := False, isCompleted := True\<rparr>\<rparr>)"
    using st w by (simp add: stable_state)
  have 2: "I (world_of (Returned (setTimeout AutoHide 1000 (emit e w3))))" if "I w3" for w3 e
    using that st by (simp add: stable_setTimeout stable_emit)
  have 3: "I (world_of (case h of None \<Rightarrow> Returned w1
                        | Some b \<Rightarrow> (let w2 = emit e w1 in if b then Threw w2 else Returned w2)))"
    if "I w1" for w1 h e
    using that st by (simp add: stable_emit Let_def split: option.splits)
  show ?thesis
    unfolding complete_def Let_def
    by (intro and_thenI[where I=I] 3[unfolded Let_def] 1 2)
qed

lemma stable_fold_ErrorReveal:
  "stable I \<Longrightarrow> I w \<Longrightarrow> I (fold (\<lambda>index. setTimeout (ErrorReveal index) (g index)) xs w)"
  by (induction xs arbitrary: w) (simp_all add: stable_setTimeout)

lemma stable_handleError:
  assumes st: "stable I" and w: "I w"
  shows "I (handleError w)"
proof -
  have 1: "I ((emit e w)\<lparr>state := (state (emit e w))\<lparr>isPlaying := False\<rparr>\<rparr>)" for e
    using st w by (intro stable_state[OF st] stable_emit[OF st]) simp_all
  show ?thesis
    unfolding handleError_def Let_def
    by (intro stable_setTimeout[OF st] stable_fold_ErrorReveal[OF st] 1) simp
qed

lemma stable_hide: "stable I \<Longrightarrow> I w \<Longrightarrow> I (hide w)"
  by (simp add: hide_def stable_setTimeout stable_sectionEl split: option.splits)

lemma stable_hide_end: "stable I \<Longrightarrow> I w \<Longrightarrow> I (hide_end w)"
  by (simp add: hide_end_def stable_sectionEl split: option.splits)

lemma stable_show_section: "stable I \<Longrightarrow> I w \<Longrightarrow> I (show_section w)"
  by (simp add: show_section_def stable_sectionEl split: option.splits)

lemma stable_error_reveal: "stable I \<Longrightarrow> I w \<Longrightarrow> I (error_reveal i w)"
  by (simp add: error_reveal_def stable_upd_slide)

lemma stable_createFloatingHeart: "stable I \<Longrightarrow> I w \<Longrightarrow> I (createFloatingHeart c w)"
  by (simp add: createFloatingHeart_def stable_setTimeout)

lemma stable_loop_settled: "stable I \<Longrightarrow> I (world_of r) \<Longrightarrow> I (loop_settled l r)"
  by (cases r; cases l) (simp_all add: loop_settled_def stable_emit stable_enqueue)

lemma stable_unhandled: "stable I \<Longrightarrow> I (world_of r) \<Longrightarrow> I (unhandled r)"
  by (cases r) (simp_all add: unhandled_def stable_emit)

lemma stable_uncaught: "stable I \<Longrightarrow> I (world_of r) \<Longrightarrow> I (uncaught r)"
  by (cases r) (simp_all add: uncaught_def stable_emit)

lemma stable_await_showSlide:
  "stable I \<Longrightarrow> I (world_of r) \<Longrightarrow> I (world_of (await_showSlide l i r))"
  by (cases r) (simp_all add: await_showSlide_def stable_enqueue)

lemma stable_playSequence_end: "stable I \<Longrightarrow> I w \<Longrightarrow> I (world_of (playSequence_end w))"
  by (simp add: playSequence_end_def stable_wait)

lemma stable_continueSequence_end: "stable I \<Longrightarrow> I w \<Longrightarrow> I (world_of (continueSequence_end w))"
  by (simp add: continueSequence_end_def stable_wait)

lemma stable_playSequence_from:
  "stable I \<Longrightarrow> I w \<Longrightarrow> I (world_of (playSequence_from i w))"
  by (simp add: playSequence_from_def stable_playSequence_end stable_await_showSlide
        stable_showSlide)

lemma stable_continueSequence_from:
  "stable I \<Longrightarrow> I w \<Longrightarrow> I (world_of (continueSequence_from i w))"
  by (simp add: continueSequence_from_def stable_continueSequence_end stable_await_showSlide
        stable_showSlide)

lemma stable_playSequence_after_show:
  "stable I \<Longrightarrow> I w \<Longrightarrow> I (world_of (playSequence_after_show i w))"
  by (simp add: playSequence_after_show_def stable_playSequence_from stable_wait)

lemma stable_continueSequence_after_show:
  "stable I \<Longrightarrow> I w \<Longrightarrow> I (world_of (continueSequence_after_show i w))"
  by (simp add: continueSequence_after_show_def stable_continueSequence_from stable_wait)

lemma stable_run_job:
  assumes st: "stable I" and w: "I w"
  shows "I (run_job j w)"
proof (cases j)
  case (LoopResume l i)
  then show ?thesis
    using st w
    by (cases l)
       (simp_all add: stable_loop_settled stable_playSequence_after_show
          stable_continueSequence_after_show)
next
  case (LoopReject l)
  then show ?thesis using st w by (simp add: stable_loop_settled)
next
  case StartCatch
  then show ?thesis using st w by (simp add: stable_handleError stable_emit)
qed

lemma stable_drain_fuel: "stable I \<Longrightarrow> I w \<Longrightarrow> I (drain_fuel n w)"
proof (induction n arbitrary: w)
  case 0
  then show ?case by simp
next
  case (Suc n)
  show ?case
  proof (cases "microtasks w")
    case Nil
    then show ?thesis using Suc.prems by simp
  next
    case (Cons j js)
    have "I (run_job j (w\<lparr>microtasks := js\<rparr>))"
      by (rule stable_run_job[OF Suc.prems(1) stable_microtasks[OF Suc.prems]])
    then have "I (drain_fuel n (run_job j (w\<lparr>microtasks := js\<rparr>)))"
      by (rule Suc.IH[OF Suc.prems(1)])
    then show ?thesis using Cons by simp
  qed
qed

lemma stable_drain: "stable I \<Longrightarrow> I w \<Longrightarrow> I (drain w)"
  unfolding drain_def by (rule stable_drain_fuel)

lemma stable_resume_kont:
  assumes st: "stable I" and w: "I w"
  shows "I (resume_kont k w)"
proof (cases k)
  case (ShowSlideTransition c i p)
  have fin: "I (world_of (showSlide_finish i p w))"
    by (rule stable_showSlide_finish[OF st w])
  show ?thesis
    using ShowSlideTransition fin st
    by (cases c) (simp_all add: stable_unhandled stable_await_showSlide)
next
  case (LoopDelay l i)
  then show ?thesis
    using st w
    by (cases l)
       (simp_all add: playSequence_after_delay_def continueSequence_after_delay_def
          stable_loop_settled stable_playSequence_from stable_continueSequence_from)
next
  case (FinalWait l)
  then show ?thesis using st w by (simp add: stable_loop_settled stable_complete)
next
  case (HeartSpawn c)
  then show ?thesis using w by (simp add: stable_createFloatingHeart[OF st])
next
  case (HeartRemove c)
  then show ?thesis using w by simp
next
  case AutoHide
  then show ?thesis using w by (simp add: stable_hide[OF st])
next
  case HideEnd
  then show ?thesis using w by (simp add: stable_hide_end[OF st])
next
  case (ErrorReveal i)
  then show ?thesis using w by (simp add: stable_error_reveal[OF st])
next
  case ErrorComplete
  then show ?thesis using st w by (simp add: stable_uncaught stable_complete)
qed

lemma find_tid: "find (\<lambda>x. tid x = t) ts = Some x \<Longrightarrow> x \<in> set ts \<and> tid x = t"
  by (induction ts) (auto split: if_splits)

lemma stable_fire:
  assumes st: "stable I" and w: "I w"
  shows "I (fire t w)"
proof (cases "find (\<lambda>x. tid x = t) (pending w)")
  case None
  then show ?thesis using w by (simp add: fire_def)
next
  case (Some x)
  have "I (w\<lparr>pending := filter (\<lambda>y. tid y \<noteq> t) (pending w), now := max (now w) (due x)\<rparr>)"
    using stable_now[OF st stable_filter[OF st w]] by simp
  then have "I (resume_kont (kont x)
                  (w\<lparr>pending := filter (\<lambda>y. tid y \<noteq> t) (pending w), now := max (now w) (due x)\<rparr>))"
    by (rule stable_resume_kont[OF st])
  then show ?thesis using Some by (simp add: fire_def)
qed

subsection \<open>Timers stay well-formed\<close>

lemma stable_wf_timers: "stable wf_timers"
  unfolding stable_def wf_timers_def
  by (auto simp: less_Suc_eq distinct_map_filter enqueue_def)

lemma wf_timers_clearTimeouts: "wf_timers w \<Longrightarrow> wf_timers (clearTimeouts w)"
  unfolding wf_timers_def by (auto simp: distinct_map_filter)

lemma no_tracked_clearTimeouts:
  "wf_timers w \<Longrightarrow> \<forall>t \<in> set (pending (clearTimeouts w)). \<not> tracked (kont t)"
  unfolding wf_timers_def by auto

lemma wf_timers_flags:
  "timeouts s = timeouts (state w) \<Longrightarrow> wf_timers (w\<lparr>state := s\<rparr>) = wf_timers w"
  by (simp add: wf_timers_def)

lemma wf_timers_sectionEl [simp]: "wf_timers (w\<lparr>sectionEl := s\<rparr>) = wf_timers w"
  by (simp add: wf_timers_def)

lemma wf_timers_slides [simp]: "wf_timers (w\<lparr>slides := s\<rparr>) = wf_timers w"
  by (simp add: wf_timers_def)

lemma wf_timers_now [simp]: "wf_timers (w\<lparr>now := s\<rparr>) = wf_timers w"
  by (simp add: wf_timers_def)

lemma wf_timers_config [simp]: "wf_timers (w\<lparr>config := c\<rparr>) = wf_timers w"
  by (simp add: wf_timers_def)

lemma wf_start: "wf_timers w \<Longrightarrow> wf_timers (start w)"
  unfolding start_def Let_def playSequence_def
  by (auto intro!: stable_loop_settled[OF stable_wf_timers] stable_playSequence_from[OF stable_wf_timers]
           simp: wf_timers_flags split: option.splits)

lemma wf_pause: "wf_timers w \<Longrightarrow> wf_timers (pause w)"
  unfolding pause_def by (auto intro!: wf_timers_clearTimeouts simp: wf_timers_flags)

lemma wf_resume: "wf_timers w \<Longrightarrow> wf_timers (resume w)"
  unfolding resume_def continueSequence_def
  by (auto intro!: stable_loop_settled[OF stable_wf_timers]
                   stable_continueSequence_from[OF stable_wf_timers]
           simp: wf_timers_flags)

lemma wf_nextSlide: "wf_timers w \<Longrightarrow> wf_timers (nextSlide w)"
  unfolding nextSlide_def Let_def
  by (auto intro!: stable_unhandled[OF stable_wf_timers] stable_showSlide[OF stable_wf_timers]
                   wf_timers_clearTimeouts)

lemma wf_complete: "wf_timers w \<Longrightarrow> wf_timers (world_of (complete w))"
  by (rule stable_complete[OF stable_wf_timers])

lemma wf_skip: "wf_timers w \<Longrightarrow> wf_timers (world_of (skip w))"
  unfolding skip_def by (intro wf_complete wf_timers_clearTimeouts)

lemma wf_stop: "wf_timers w \<Longrightarrow> wf_timers (stop w)"
  unfolding stop_def by (auto intro!: wf_timers_clearTimeouts simp: wf_timers_flags)

lemma wf_resetSlides: "wf_timers w \<Longrightarrow> wf_timers (resetSlides w)"
  unfolding resetSlides_def by (simp add: wf_timers_def)

lemma wf_restart: "wf_timers w \<Longrightarrow> wf_timers (restart w)"
  unfolding restart_def by (intro wf_start wf_resetSlides wf_stop)

lemma wf_fire: "wf_timers w \<Longrightarrow> wf_timers (fire t w)"
  by (rule stable_fire[OF stable_wf_timers])

lemma wf_keydown: "wf_timers w \<Longrightarrow> wf_timers (keydown k w)"
  unfolding keydown_def
  by (cases k) (auto intro!: stable_uncaught[OF stable_wf_timers] wf_skip wf_resume wf_pause wf_nextSlide)

lemma wf_do_call: "wf_timers w \<Longrightarrow> wf_timers (world_of (do_call c w))"
  by (cases c)
     (simp_all add: wf_start wf_pause wf_resume wf_nextSlide wf_skip wf_complete wf_stop wf_restart
        wf_resetSlides stable_hide[OF stable_wf_timers] stable_show_section[OF stable_wf_timers])

lemma wf_script: "wf_timers w \<Longrightarrow> wf_timers (script cs w)"
proof (induction cs arbitrary: w)
  case Nil
  then show ?case by simp
next
  case (Cons c cs)
  from Cons.prems have "wf_timers (world_of (do_call c w))" by (rule wf_do_call)
  then show ?case
    using Cons.IH by (cases "do_call c w") (simp_all add: stable_emit[OF stable_wf_timers])
qed

lemma wf_perform: "wf_timers w \<Longrightarrow> wf_timers (perform a w)"
  by (cases a)
     (auto simp: click_def visibilitychange_def
           intro!: stable_drain[OF stable_wf_timers] wf_script wf_keydown wf_nextSlide wf_pause
                   wf_resume wf_fire)

lemma wf_setupAccessibility: "wf_timers w \<Longrightarrow> wf_timers (setupAccessibility r w)"
  by (simp add: setupAccessibility_def)

lemma wf_new: "wf_timers (new_IntroSlides opts pg t0 draws)"
proof -
  define w0 where "w0 = \<lparr>config = make_config opts,
                state = \<lparr>currentSlide = - 1, isPlaying = False, isPaused = False,
                          isCompleted = False, startTime = None, timeouts = []\<rparr>,
                eventHandlers = opt_handlers opts,
                slides = [], sectionEl = None, now = t0, pending = [], nextTimer = 0,
                microtasks = [], heartDelays = draws, heartCalls = 0, trace = []\<rparr>"
  have 0: "wf_timers w0"
    by (simp add: wf_timers_def w0_def)
  have 1: "wf_timers (emit e (w0\<lparr>sectionEl := x\<rparr>))" "wf_timers (emit e w0)" for e x
    using 0 by (simp_all add: stable_emit[OF stable_wf_timers])
  have 2: "wf_timers (setupAccessibility r (resetSlides (w0\<lparr>sectionEl := x, slides := els\<rparr>)))"
    for r x els
    using 0 by (intro wf_setupAccessibility wf_resetSlides) simp
  show ?thesis
    unfolding new_IntroSlides_def Let_def w0_def[symmetric]
    using 1 2 by (auto split: option.splits intro!: wf_start)
qed

lemma status_Paused: "status w = Paused \<longleftrightarrow> isPlaying (state w) \<and> isPaused (state w)"
  by (simp add: status_def)

lemma status_Playing: "status w = Playing \<longleftrightarrow> isPlaying (state w) \<and> \<not> isPaused (state w)"
  by (simp add: status_def)

lemma state_complete [simp]:
  "state (world_of (complete w)) = (state w)\<lparr>isPlaying := False, isPaused := False, isCompleted := True\<rparr>"
  by (simp add: complete_def Let_def and_then_def split: option.splits)

lemma state_hide [simp]: "state (hide w) = state w"
  by (simp add: hide_def split: option.splits)

lemma state_show_section [simp]: "state (show_section w) = state w"
  by (simp add: show_section_def split: option.splits)

subsection \<open>The queue of reactions is emptied\<close>

lemma microtasks_fold_ErrorReveal [simp]:
  "microtasks (fold (\<lambda>index. setTimeout (ErrorReveal index) (int index * 200)) xs w) = microtasks w"
  by (induction xs arbitrary: w) simp_all

lemma microtasks_handleError [simp]: "microtasks (handleError w) = microtasks w"
  by (simp add: handleError_def Let_def)

lemma microtasks_loop_end [simp]:
  "microtasks (world_of (playSequence_end w)) = microtasks w"
  "microtasks (world_of (continueSequence_end w)) = microtasks w"
  by (simp_all add: playSequence_end_def continueSequence_end_def)

lemma microtasks_after_show:
  "microtasks (loop_settled PlaySequence (playSequence_after_show i w)) = microtasks w"
  "microtasks (loop_settled ContinueSequence (continueSequence_after_show i w)) = microtasks w"
  by (simp_all add: playSequence_after_show_def continueSequence_after_show_def
        playSequence_from_def continueSequence_from_def loop_settled_def
        playSequence_end_def continueSequence_end_def)

lemma microtasks_run_job:
  "microtasks (run_job j w)
     = microtasks w @ (if j = LoopReject PlaySequence then [StartCatch] else [])"
proof (cases j)
  case (LoopResume l i)
  then show ?thesis by (cases l) (simp_all add: microtasks_after_show)
next
  case (LoopReject l)
  then show ?thesis by (cases l) (simp_all add: loop_settled_def)
next
  case StartCatch
  then show ?thesis by simp
qed

lemma drain_fuel_empties:
  "sum_list (map job_weight (microtasks w)) \<le> n \<Longrightarrow> microtasks (drain_fuel n w) = []"
proof (induction n arbitrary: w)
  case 0
  have pos: "0 < job_weight j" for j by (cases j rule: job_weight.cases) simp_all
  show ?case
  proof (cases "microtasks w")
    case Nil
    then show ?thesis by simp
  next
    case (Cons j js)
    then have "job_weight j \<le> 0" using "0.prems" by simp
    then show ?thesis using pos[of j] by simp
  qed
next
  case (Suc n)
  show ?case
  proof (cases "microtasks w")
    case Nil
    then show ?thesis by simp
  next
    case (Cons j js)
    define w' where "w' = run_job j (w\<lparr>microtasks := js\<rparr>)"
    have m: "microtasks w' = js @ (if j = LoopReject PlaySequence then [StartCatch] else [])"
      unfolding w'_def by (simp add: microtasks_run_job)
    have "sum_list (map job_weight (js @ (if j = LoopReject PlaySequence then [StartCatch] else [])))
            + 1 \<le> job_weight j + sum_list (map job_weight js)"
      by (cases j rule: job_weight.cases) simp_all
    moreover have "job_weight j + sum_list (map job_weight js) \<le> Suc n"
      using Suc.prems unfolding Cons by simp
    ultimately have "sum_list (map job_weight (microtasks w')) \<le> n"
      unfolding m by linarith
    then have e: "microtasks (drain_fuel n w') = []" by (rule Suc.IH)
    have "drain_fuel (Suc n) w = drain_fuel n w'"
      unfolding w'_def by (simp add: Cons)
    then show ?thesis using e by simp
  qed
qed

lemma drain_empties: "microtasks (drain w) = []"
proof -
  have "job_weight j \<le> 2" for j by (cases j rule: job_weight.cases) simp_all
  have le2: "job_weight j \<le> 2" for j by (cases j rule: job_weight.cases) simp_all
  have "sum_list (map job_weight ms) \<le> 2 * length ms" for ms
  proof (induction ms)
    case Nil
    show ?case by simp
  next
    case (Cons a ms)
    then show ?case using le2[of a] by simp
  qed
  then show ?thesis unfolding drain_def by (rule drain_fuel_empties)
qed

lemma perform_empties: "microtasks w = [] \<Longrightarrow> microtasks (perform a w) = []"
  by (cases a) (simp_all add: drain_empties)

subsection \<open>Pausing\<close>

text \<open>
  Claim C4, as stated, fails.  In the scenario, \<^verbatim>\<open>pause()\<close> right after \<^verbatim>\<open>start()\<close> leaves
  the sequencer paused with the two heart callbacks pending that \<^verbatim>\<open>showSlide(0)\<close>, called
  by the play loop, has scheduled with \<^verbatim>\<open>setTimeout\<close>: \<^verbatim>\<open>pause()\<close> does not cancel every
  outstanding timer.  A \<^verbatim>\<open>nextSlide()\<close> made while paused (the ArrowRight key is only
  guarded by \<^verbatim>\<open>isPlaying\<close>) adds the transition timer of \<^verbatim>\<open>showSlide(1)\<close>, set by \<^verbatim>\<open>wait\<close>,
  and the sequencer is still paused.
\<close>

theorem paused_with_pending_callbacks_counterexample:
  "status (pause (start demo)) = Paused
   \<and> map kont (pending (pause (start demo)))
       = [HeartSpawn (Awaited PlaySequence), HeartSpawn (Awaited PlaySequence)]
   \<and> status (nextSlide (pause (start demo))) = Paused
   \<and> map kont (pending (nextSlide (pause (start demo))))
       = [HeartSpawn (Awaited PlaySequence), HeartSpawn (Awaited PlaySequence),
          HeartSpawn NotAwaited, HeartSpawn NotAwaited, ShowSlideTransition NotAwaited 1 0]"
  by code_simp

text \<open>
  Nor is a paused sequencer free of timers of \<^verbatim>\<open>wait\<close> set by a play loop.  With four
  messages and two slide elements, paused on the second slide: page code that calls
  \<^verbatim>\<open>resume()\<close> and then \<^verbatim>\<open>pause()\<close> in one task leaves the sequencer paused with the delay
  timer of \<^verbatim>\<open>continueSequence\<close> pending.  \<^verbatim>\<open>showSlide(2)\<close> returns at once, the loop goes on
  only after \<^verbatim>\<open>pause()\<close> has run, and it calls \<^verbatim>\<open>wait\<close> without reading the flags again.
\<close>

lemma resume_then_pause_leaves_loop_timer:
  "status (pause (run 3 (start narrow))) = Paused
   \<and> pending (pause (run 3 (start narrow))) = []
   \<and> status (perform (Script [CallResume, CallPause]) (pause (run 3 (start narrow)))) = Paused
   \<and> map kont (pending (perform (Script [CallResume, CallPause]) (pause (run 3 (start narrow)))))
       = [LoopDelay ContinueSequence 2]"
  by code_simp

lemma pause_no_tracked:
  "wf_timers w \<Longrightarrow> isPlaying (state w) \<Longrightarrow> \<not> isPaused (state w)
   \<Longrightarrow> \<forall>t \<in> set (pending (pause w)). \<not> tracked (kont t)"
  using no_tracked_clearTimeouts[of "w\<lparr>state := (state w)\<lparr>isPaused := True\<rparr>\<rparr>"]
  by (simp add: pause_def wf_timers_flags)

text \<open>
  Claim C4, amended.  \<^verbatim>\<open>pause()\<close> called in any state other than playing changes nothing,
  and it never changes \<^verbatim>\<open>currentSlide\<close>.  Called while playing it leaves the sequencer
  paused, empties \<^verbatim>\<open>state.timeouts\<close> and cancels exactly the pending timers listed there.
  These are all the pending timers set by \<^verbatim>\<open>wait\<close>, as long as every such timer is listed
  in \<^verbatim>\<open>state.timeouts\<close>; that holds after construction and is kept by every task, whatever
  methods the page calls in it, whichever listener or timer runs.  So right after
  \<^verbatim>\<open>pause()\<close> no timer of \<^verbatim>\<open>wait\<close> is pending.  Timers set with a bare \<^verbatim>\<open>setTimeout\<close> stay,
  and nothing keeps a timer from being set while the sequencer is paused.
\<close>

theorem pause_cancels_wait_timers:
  "(status w \<noteq> Playing \<longrightarrow> pause w = w)
   \<and> currentSlide (state (pause w)) = currentSlide (state w)
   \<and> (status w = Playing \<longrightarrow>
        status (pause w) = Paused \<and> timeouts (state (pause w)) = []
        \<and> pending (pause w) = filter (\<lambda>t. tid t \<notin> set (timeouts (state w))) (pending w))
   \<and> (status w = Playing \<and> wf_timers w \<longrightarrow> (\<forall>t \<in> set (pending (pause w)). \<not> tracked (kont t)))
   \<and> wf_timers (new_IntroSlides opts pg t0 draws)
   \<and> (wf_timers w \<longrightarrow> wf_timers (perform a w))"
proof (intro conjI impI)
  assume "status w \<noteq> Playing"
  then show "pause w = w" by (auto simp: status_Playing pause_def)
next
  show "currentSlide (state (pause w)) = currentSlide (state w)"
    by (simp add: pause_def)
next
  assume "status w = Playing"
  then show "status (pause w) = Paused" by (simp add: status_Playing status_Paused pause_def)
next
  assume "status w = Playing"
  then show "timeouts (state (pause w)) = []" by (simp add: status_Playing pause_def)
next
  assume "status w = Playing"
  then show "pending (pause w) = filter (\<lambda>t. tid t \<notin> set (timeouts (state w))) (pending w)"
    by (simp add: status_Playing pause_def)
next
  assume "status w = Playing \<and> wf_timers w"
  then show "\<forall>t \<in> set (pending (pause w)). \<not> tracked (kont t)"
    using pause_no_tracked[of w] by (simp add: status_Playing)
next
  show "wf_timers (new_IntroSlides opts pg t0 draws)" by (rule wf_new)
next
  assume "wf_timers w"
  then show "wf_timers (perform a w)" by (rule wf_perform)
qed

theorem pause_cancels_wait_timers_witness:
  "wf_timers demo
   \<and> wf_timers (perform (Script [CallStart]) demo)
   \<and> status (perform (Script [CallStart]) demo) = Playing
   \<and> status (pause (perform (Script [CallStart]) demo)) = Paused
   \<and> list_all (\<lambda>t. \<not> tracked (kont t)) (pending (pause (perform (Script [CallStart]) demo)))
   \<and> pause (pause (perform (Script [CallStart]) demo)) = pause (perform (Script [CallStart]) demo)"
proof -
  let ?w = "perform (Script [CallStart]) demo"
  have d: "wf_timers demo"
    using pause_cancels_wait_timers[of demo demo_options demo_page 0 "\<lambda>_. [10, 700]"]
    by (simp add: demo_def)
  have w: "wf_timers ?w"
    using pause_cancels_wait_timers[of demo _ _ _ _ "Script [CallStart]"] d by blast
  have s1: "status ?w = Playing" by code_simp
  have s2: "status (pause ?w) \<noteq> Playing" by code_simp
  show ?thesis
    using pause_cancels_wait_timers[of ?w] pause_cancels_wait_timers[of "pause ?w"] d w s1 s2
    by (simp add: list_all_iff)
qed

subsection \<open>Completing twice\<close>

lemma completions_simps [simp]:
  "completions (emit e w) = completions w + (if is_SequenceComplete e then 1 else 0)"
  "completions (setTimeout k d w) = completions w"
  "completions (clearTimeouts w) = completions w"
  "completions (w\<lparr>state := s\<rparr>) = completions w"
  "broadcasts (emit e w) = broadcasts w + (if is_broadcast e then 1 else 0)"
  "broadcasts (setTimeout k d w) = broadcasts w"
  "broadcasts (clearTimeouts w) = broadcasts w"
  "broadcasts (w\<lparr>state := s\<rparr>) = broadcasts w"
  by (simp_all add: completions_def broadcasts_def)

lemma complete_counts:
  "completions (world_of (complete w))
     = completions w + (if onSequenceComplete (eventHandlers w) = None then 0 else 1)"
  "broadcasts (world_of (complete w))
     = broadcasts w + (if onSequenceComplete (eventHandlers w) = Some True then 0 else 1)"
  "eventHandlers (world_of (complete w)) = eventHandlers w"
  by (auto simp: complete_def Let_def and_then_def split: option.splits)

lemma skip_counts:
  "completions (world_of (skip w))
     = completions w + (if onSequenceComplete (eventHandlers w) = None then 0 else 1)"
  "broadcasts (world_of (skip w))
     = broadcasts w + (if onSequenceComplete (eventHandlers w) = Some True then 0 else 1)"
  "eventHandlers (world_of (skip w)) = eventHandlers w"
  by (simp_all add: skip_def complete_counts)

lemma state_complete_twice:
  "state (world_of (complete (world_of (complete w)))) = state (world_of (complete w))"
  by simp

lemma state_uncaught [simp]: "state (uncaught r) = state (world_of r)"
  by (cases r) (simp_all add: uncaught_def)

lemma keydown_Escape_twice: "keydown Escape (keydown Escape w) = keydown Escape w"
proof -
  have "\<not> isPlaying (state (keydown Escape w))"
    by (simp add: keydown_def skip_def)
  then show ?thesis by (subst keydown_def) simp
qed

text \<open>
  Claim C2, as stated, fails: \<^verbatim>\<open>complete()\<close> has no guard.  In the scenario, two calls of
  \<^verbatim>\<open>complete()\<close>, or of \<^verbatim>\<open>skip()\<close>, call \<^verbatim>\<open>onSequenceComplete\<close> twice and dispatch the
  completion event twice.
\<close>

theorem complete_twice_counterexample:
  "completions (world_of (complete (world_of (complete demo)))) = 2
   \<and> broadcasts (world_of (complete (world_of (complete demo)))) = 2
   \<and> completions (world_of (skip (world_of (skip (start demo))))) = 2
   \<and> broadcasts (world_of (skip (world_of (skip (start demo))))) = 2"
  by code_simp

text \<open>
  Claim C2, amended.  Every call of \<^verbatim>\<open>complete()\<close> (and of \<^verbatim>\<open>skip()\<close>, which delegates to it)
  leaves the sequencer completed, calls \<^verbatim>\<open>onSequenceComplete\<close> when such a handler is
  installed, and dispatches the completion event unless the handler has thrown; with no
  handler installed the event is dispatched all the same.  Two calls in succession do
  each of these twice.  Only the state reached is the same after the second call as
  after the first.  The Escape key is guarded by \<^verbatim>\<open>isPlaying\<close> in the listener, so that
  pressing it twice is the same as pressing it once.
\<close>

theorem complete_fires_every_time:
  "completions (world_of (complete w))
     = completions w + (if onSequenceComplete (eventHandlers w) = None then 0 else 1)
   \<and> broadcasts (world_of (complete w))
     = broadcasts w + (if onSequenceComplete (eventHandlers w) = Some True then 0 else 1)
   \<and> completions (world_of (complete (world_of (complete w))))
     = completions w + (if onSequenceComplete (eventHandlers w) = None then 0 else 2)
   \<and> broadcasts (world_of (complete (world_of (complete w))))
     = broadcasts w + (if onSequenceComplete (eventHandlers w) = Some True then 0 else 2)
   \<and> completions (world_of (skip (world_of (skip w))))
     = completions w + (if onSequenceComplete (eventHandlers w) = None then 0 else 2)
   \<and> broadcasts (world_of (skip (world_of (skip w))))
     = broadcasts w + (if onSequenceComplete (eventHandlers w) = Some True then 0 else 2)
   \<and> status (world_of (complete w)) = Completed
   \<and> status (world_of (skip w)) = Completed
   \<and> state (world_of (complete (world_of (complete w)))) = state (world_of (complete w))
   \<and> keydown Escape (keydown Escape w) = keydown Escape w"
proof -
  have st: "status (world_of (complete v)) = Completed" for v
    by (simp add: status_def)
  show ?thesis
    using st[of w] st[of "clearTimeouts w"] keydown_Escape_twice[of w]
    by (simp add: complete_counts skip_counts skip_def[symmetric])
qed

theorem complete_fires_every_time_witness:
  "completions (world_of (complete (world_of (complete demo)))) = 2
   \<and> broadcasts (world_of (complete (world_of (complete demo)))) = 2
   \<and> status (world_of (complete demo)) = Completed
   \<and> completions (keydown Escape (keydown Escape (start demo))) = 1"
proof -
  have h: "onSequenceComplete (eventHandlers demo) = Some False" by code_simp
  have c0: "completions demo = 0" "broadcasts demo = 0" by code_simp+
  have k1: "completions (keydown Escape (start demo)) = 1" by code_simp
  show ?thesis
    using complete_fires_every_time[of demo] complete_fires_every_time[of "start demo"] h c0 k1
    by simp
qed

subsection \<open>Starting\<close>

lemma map_kont_heart_timers [simp]:
  "map kont (heart_timers c w) = replicate (length (heart_timers c w)) (HeartSpawn c)"
  by (auto simp: heart_timers_def map_replicate_const[symmetric] case_prod_unfold simp del: map_replicate_const intro!: map_idI)

lemma message_at_cong [simp]:
  "message_at (emit e w) = message_at w" "message_at (setTimeout k d w) = message_at w"
  "message_at (w\<lparr>state := s\<rparr>) = message_at w" "message_at (w\<lparr>sectionEl := x\<rparr>) = message_at w"
  by (simp_all add: message_at_def fun_eq_iff)

lemma showSlide_in_range:
  assumes "0 \<le> i" "i < int (length (slides w))" "\<not> raises (onSlideStart (eventHandlers w)) i"
  obtains w' where "showSlide c i w = Suspended w'"
    "config w' = config w" "eventHandlers w' = eventHandlers w"
    "length (slides w') = length (slides w)" "now w' = now w" "heartDelays w' = heartDelays w"
    "sectionEl w' = sectionEl w" "microtasks w' = microtasks w"
    "state w' = (state w)\<lparr>currentSlide := i,
        timeouts := timeouts (state w) @ [nextTimer w + length (heart_timers c w)]\<rparr>"
    "trace w' = trace w @ start_events w i"
    "pending w' = pending w @ heart_timers c w @
        [\<lparr>tid = nextTimer w + length (heart_timers c w),
          due = now w + max 0 (transitionDuration (config w)),
          kont = ShowSlideTransition c i (currentSlide (state w))\<rparr>]"
    "nextTimer w' = Suc (nextTimer w + length (heart_timers c w))"
proof -
  have h: "pending (addHeartEffect c v) = pending v @ heart_timers c v
         \<and> nextTimer (addHeartEffect c v) = nextTimer v + length (heart_timers c v)
         \<and> config (addHeartEffect c v) = config v \<and> state (addHeartEffect c v) = state v
         \<and> eventHandlers (addHeartEffect c v) = eventHandlers v
         \<and> slides (addHeartEffect c v) = slides v \<and> now (addHeartEffect c v) = now v
         \<and> heartDelays (addHeartEffect c v) = heartDelays v
         \<and> sectionEl (addHeartEffect c v) = sectionEl v
         \<and> microtasks (addHeartEffect c v) = microtasks v
         \<and> trace (addHeartEffect c v) = trace v" if "enableHeartEffects (config v)" for v
    using that by (simp add: addHeartEffect_def heart_timers_def pending_fold_setTimeout)
  have n: "heart_timers c v = []" if "\<not> enableHeartEffects (config v)" for v
    using that by (simp add: heart_timers_def)
  have ht: "heart_timers c (upd_slide a f (upd_slide b g v)) = heart_timers c v" for a b f g v
    by (simp add: heart_timers_def)
  have hs: "heart_timers c (v\<lparr>state := s\<rparr>) = heart_timers c v"
       "heart_timers c (emit e v) = heart_timers c v" for v s e
    by (simp_all add: heart_timers_def)
  show thesis
  proof (cases "onSlideStart (eventHandlers w)")
    case None
    show ?thesis
      apply (rule that[of "world_of (showSlide c i w)"])
      using assms None
      by (cases "enableHeartEffects (config w)";
          simp add: showSlide_def Let_def and_then_def invoke_def start_events_def h n ht hs)+
  next
    case (Some f)
    show ?thesis
      apply (rule that[of "world_of (showSlide c i w)"])
      using assms Some
      by (cases "enableHeartEffects (config w)";
          simp add: showSlide_def Let_def and_then_def invoke_def start_events_def h n ht hs raises_def)+
  qed
qed

lemma showSlide_raising:
  assumes "0 \<le> i" "i < int (length (slides w))" "raises (onSlideStart (eventHandlers w)) i"
  shows "showSlide c i w =
           Threw (emit (SlideStart i (message_at w i)) (w\<lparr>state := (state w)\<lparr>currentSlide := i\<rparr>\<rparr>))"
    and "start_events w i = [SlideStart i (message_at w i)]"
  using assms
  by (auto simp: showSlide_def Let_def and_then_def invoke_def raises_def start_events_def
           split: option.splits)

lemma showSlide_out_of_range:
  "i < 0 \<or> int (length (slides w)) \<le> i \<Longrightarrow> showSlide c i w = Returned w"
  by (simp add: showSlide_def)

lemma loop_settled_Suspended [simp]: "loop_settled l (Suspended w) = w"
  by (simp add: loop_settled_def)

lemma await_showSlide_simps [simp]:
  "await_showSlide l i (Suspended w) = Suspended w"
  "await_showSlide l i (Returned w) = Suspended (enqueue (LoopResume l i) w)"
  "await_showSlide l i (Threw w) = Suspended (enqueue (LoopReject l) w)"
  by (simp_all add: await_showSlide_def)

lemma heart_timers_cong:
  "config v = config w \<Longrightarrow> now v = now w \<Longrightarrow> nextTimer v = nextTimer w
   \<Longrightarrow> heartDelays v = heartDelays w \<Longrightarrow> heartCalls v = heartCalls w
   \<Longrightarrow> heart_timers c v = heart_timers c w"
  by (simp add: heart_timers_def)

lemma start_events_cong:
  "eventHandlers v = eventHandlers w \<Longrightarrow> message_at v = message_at w
   \<Longrightarrow> start_events v i = start_events w i"
  by (simp add: start_events_def split: option.splits)

lemma start_running:
  assumes idle: "\<not> isPlaying (state w)" "\<not> isCompleted (state w)"
  shows "status (start w) = Playing \<and> startTime (state (start w)) = Some (now w)
       \<and> (if length (messages (config w)) = 0
          then currentSlide (state (start w)) = currentSlide (state w)
             \<and> trace (start w) = trace w \<and> microtasks (start w) = microtasks w
             \<and> map kont (pending (start w)) = map kont (pending w) @ [FinalWait PlaySequence]
          else if slides w = []
          then currentSlide (state (start w)) = currentSlide (state w)
             \<and> trace (start w) = trace w \<and> pending (start w) = pending w
             \<and> microtasks (start w) = microtasks w @ [LoopResume PlaySequence 0]
          else currentSlide (state (start w)) = 0
             \<and> trace (start w) = trace w @ start_events w 0
             \<and> (if raises (onSlideStart (eventHandlers w)) 0
                then pending (start w) = pending w
                   \<and> microtasks (start w) = microtasks w @ [LoopReject PlaySequence]
                else microtasks (start w) = microtasks w
                   \<and> map kont (pending (start w))
                       = map kont (pending w)
                         @ replicate (length (heart_timers (Awaited PlaySequence) w))
                             (HeartSpawn (Awaited PlaySequence))
                         @ [ShowSlideTransition (Awaited PlaySequence) 0 (currentSlide (state w))]))"
proof -
  define w1 where "w1 = w\<lparr>state := (state w)\<lparr>isPlaying := True, isPaused := False,
                                          startTime := Some (now w)\<rparr>\<rparr>"
  define w2 where "w2 = (case sectionEl w1 of None \<Rightarrow> w1
                   | Some sec \<Rightarrow> w1\<lparr>sectionEl := Some (sec\<lparr>cls_hidden := False\<rparr>)\<rparr>)"
  have s: "start w = loop_settled PlaySequence (playSequence_from 0 w2)"
    using idle unfolding start_def Let_def playSequence_def w1_def w2_def
    by (simp split: option.splits)
  have w2: "state w2 = (state w)\<lparr>isPlaying := True, isPaused := False, startTime := Some (now w)\<rparr>"
    "config w2 = config w" "slides w2 = slides w" "eventHandlers w2 = eventHandlers w"
    "now w2 = now w" "trace w2 = trace w" "pending w2 = pending w" "microtasks w2 = microtasks w"
    "nextTimer w2 = nextTimer w" "heartDelays w2 = heartDelays w" "heartCalls w2 = heartCalls w"
    "message_at w2 = message_at w"
    by (simp_all add: w2_def w1_def message_at_def fun_eq_iff split: option.splits)
  have ht: "heart_timers c w2 = heart_timers c w" for c
    by (rule heart_timers_cong) (simp_all add: w2)
  have se: "start_events w2 0 = start_events w 0"
    by (rule start_events_cong) (simp_all add: w2)
  show ?thesis
  proof (cases "0 < length (messages (config w))")
    case False
    then have "playSequence_from 0 w2 = Suspended (wait (FinalWait PlaySequence) 400 w2)"
      by (simp add: playSequence_from_def w2 playSequence_end_def)
    then show ?thesis using False by (simp add: s w2 status_def)
  next
    case N: True
    show ?thesis
    proof (cases "slides w = []")
      case True
      then have sh: "showSlide (Awaited PlaySequence) 0 w2 = Returned w2"
        by (simp add: showSlide_out_of_range w2)
      have "playSequence_from 0 w2 = Suspended (enqueue (LoopResume PlaySequence 0) w2)"
        using N by (simp add: playSequence_from_def sh w2)
      then show ?thesis using True N by (simp add: s w2 status_def)
    next
      case S: False
      show ?thesis
      proof (cases "raises (onSlideStart (eventHandlers w)) 0")
        case True
        have r: "0 \<le> (0::int)" "0 < int (length (slides w2))"
          "raises (onSlideStart (eventHandlers w2)) 0"
          using S True by (simp_all add: w2)
        have "playSequence_from 0 w2 =
                Suspended (enqueue (LoopReject PlaySequence)
                  (emit (SlideStart 0 (message_at w2 0)) (w2\<lparr>state := (state w2)\<lparr>currentSlide := 0\<rparr>\<rparr>)))"
          using N by (simp add: playSequence_from_def showSlide_raising(1)[OF r] w2)
        then show ?thesis
          using S N True showSlide_raising(2)[OF r] by (simp add: s w2 status_def se[symmetric])
      next
        case False
        have "0 \<le> (0::int)" "0 < int (length (slides w2))"
          "\<not> raises (onSlideStart (eventHandlers w2)) 0"
          using S False by (simp_all add: w2)
        then obtain w' where w': "showSlide (Awaited PlaySequence) 0 w2 = Suspended w'"
          "microtasks w' = microtasks w2"
          "state w' = (state w2)\<lparr>currentSlide := 0,
              timeouts := timeouts (state w2) @ [nextTimer w2 + length (heart_timers (Awaited PlaySequence) w2)]\<rparr>"
          "trace w' = trace w2 @ start_events w2 0"
          "pending w' = pending w2 @ heart_timers (Awaited PlaySequence) w2 @
          [\<lparr>tid = nextTimer w2 + length (heart_timers (Awaited PlaySequence) w2),
            due = now w2 + max 0 (transitionDuration (config w2)),
            kont = ShowSlideTransition (Awaited PlaySequence) 0 (currentSlide (state w2))\<rparr>]"
          by (rule showSlide_in_range[where c = "Awaited PlaySequence"]) blast
        have "playSequence_from 0 w2 = Suspended w'"
          using N by (simp add: playSequence_from_def w' w2)
        then show ?thesis using S N False by (simp add: s w' w2 status_def ht se)
      qed
    qed
  qed
qed

lemma new_IntroSlides_cases:
  "\<exists>v. currentSlide (state v) = - 1 \<and> status v = Idle
       \<and> (new_IntroSlides opts pg t0 draws = v \<or> new_IntroSlides opts pg t0 draws = start v)"
proof -
  define w0 where "w0 = \<lparr>config = make_config opts,
                state = \<lparr>currentSlide = - 1, isPlaying = False, isPaused = False,
                          isCompleted = False, startTime = None, timeouts = []\<rparr>,
                eventHandlers = opt_handlers opts,
                slides = [], sectionEl = None, now = t0, pending = [], nextTimer = 0,
                microtasks = [], heartDelays = draws, heartCalls = 0, trace = []\<rparr>"
  define w2 where "w2 els = setupAccessibility (prefersReducedMotion pg)
                     (resetSlides (w0\<lparr>sectionEl := enclosing_section pg, slides := els\<rparr>))" for els
  have n: "new_IntroSlides opts pg t0 draws =
       (case container pg of
           None \<Rightarrow> emit (ConsoleError ''IntroSlides initialization failed:'') w0
         | Some els \<Rightarrow>
             (if els = []
              then emit (ConsoleError ''IntroSlides initialization failed:'')
                     (w0\<lparr>sectionEl := enclosing_section pg\<rparr>)
              else if autoStart (config (w2 els)) then start (w2 els) else w2 els))"
    unfolding new_IntroSlides_def w0_def w2_def Let_def by (simp split: option.splits)
  have i0: "currentSlide (state w0) = - 1" "status w0 = Idle"
    by (simp_all add: w0_def status_def)
  have i1: "currentSlide (state (emit e (w0\<lparr>sectionEl := x\<rparr>))) = - 1"
    "status (emit e (w0\<lparr>sectionEl := x\<rparr>)) = Idle"
    "currentSlide (state (emit e w0)) = - 1" "status (emit e w0) = Idle" for e x
    by (simp_all add: w0_def status_def)
  have i2: "currentSlide (state (w2 els)) = - 1" "status (w2 els) = Idle" for els
    by (simp_all add: w2_def w0_def setupAccessibility_def resetSlides_def status_def)
  show ?thesis
  proof (cases "container pg")
    case None
    then have "new_IntroSlides opts pg t0 draws
                 = emit (ConsoleError ''IntroSlides initialization failed:'') w0"
      using n by simp
    then show ?thesis using i1(3,4) by metis
  next
    case (Some els)
    show ?thesis
    proof (cases "els = []")
      case True
      then have "new_IntroSlides opts pg t0 draws
                 = emit (ConsoleError ''IntroSlides initialization failed:'')
                     (w0\<lparr>sectionEl := enclosing_section pg\<rparr>)"
        using n Some by simp
      then show ?thesis using i1(1,2) by metis
    next
      case False
      then have "new_IntroSlides opts pg t0 draws = w2 els
               \<or> new_IntroSlides opts pg t0 draws = start (w2 els)"
        using n Some by simp
      then show ?thesis using i2[of els] by blast
    qed
  qed
qed

text \<open>
  Claim C6, as stated, fails twice.  A paused sequencer is neither playing nor completed
  in the states of the specification, yet \<^verbatim>\<open>start()\<close> does nothing there, because its guard
  reads \<^verbatim>\<open>isPlaying\<close>, which stays set while paused.  And \<^verbatim>\<open>start()\<close> does not set
  \<^verbatim>\<open>currentSlide\<close>: after \<^verbatim>\<open>stop()\<close> on the second slide, the first slide is shown with the
  second as its previous slide.
\<close>

theorem start_as_specified_counterexample:
  "status (pause (start demo)) = Paused
   \<and> status (start (pause (start demo))) = Paused
   \<and> status (start_as_specified (pause (start demo))) = Playing
   \<and> currentSlide (state (stop (run 3 (start demo)))) = 1
   \<and> status (stop (run 3 (start demo))) = Idle
   \<and> kont (last (pending (start (stop (run 3 (start demo))))))
       = ShowSlideTransition (Awaited PlaySequence) 0 1
   \<and> kont (last (pending (start_as_specified (stop (run 3 (start demo))))))
       = ShowSlideTransition (Awaited PlaySequence) 0 (- 1)"
  by code_simp

text \<open>
  Claim C6, amended.  \<^verbatim>\<open>start()\<close> changes nothing when \<^verbatim>\<open>isPlaying\<close> is set (playing or
  paused) or the sequencer is completed.  Otherwise it leaves the sequencer playing with
  the start time recorded and the play loop begun at index 0, whatever the handlers do:

    \<^item> with no message, the loop sets its closing timer of 400 ms;
    \<^item> with a message and no slide element, \<^verbatim>\<open>showSlide(0)\<close> returns at once and the loop
      goes on from index 0 once the current task is over;
    \<^item> with a message and a slide element, slide 0 becomes the current slide and
      \<^verbatim>\<open>onSlideStart\<close>, if installed, is called for it; if it throws, the rejection of the
      loop is queued (and nothing is scheduled), otherwise the hearts and the transition
      of slide 0 are scheduled, the previous slide of the transition being the
      \<^verbatim>\<open>currentSlide\<close> found on entry.

  \<^verbatim>\<open>start()\<close> itself never resets \<^verbatim>\<open>currentSlide\<close>: it is -1 when \<^verbatim>\<open>start()\<close> is called by
  the constructor, and after \<^verbatim>\<open>resetSlides()\<close>, which \<^verbatim>\<open>restart()\<close> calls (after \<^verbatim>\<open>stop()\<close>)
  before it calls \<^verbatim>\<open>start()\<close>.
\<close>

theorem start_effect:
  "(isPlaying (state w) \<or> isCompleted (state w) \<longrightarrow> start w = w)
   \<and> (\<not> isPlaying (state w) \<and> \<not> isCompleted (state w) \<longrightarrow>
        status (start w) = Playing \<and> startTime (state (start w)) = Some (now w)
        \<and> (if length (messages (config w)) = 0
           then currentSlide (state (start w)) = currentSlide (state w)
              \<and> trace (start w) = trace w \<and> microtasks (start w) = microtasks w
              \<and> map kont (pending (start w)) = map kont (pending w) @ [FinalWait PlaySequence]
           else if slides w = []
           then currentSlide (state (start w)) = currentSlide (state w)
              \<and> trace (start w) = trace w \<and> pending (start w) = pending w
              \<and> microtasks (start w) = microtasks w @ [LoopResume PlaySequence 0]
           else currentSlide (state (start w)) = 0
              \<and> trace (start w) = trace w @ start_events w 0
              \<and> (if raises (onSlideStart (eventHandlers w)) 0
                 then pending (start w) = pending w
                    \<and> microtasks (start w) = microtasks w @ [LoopReject PlaySequence]
                 else microtasks (start w) = microtasks w
                    \<and> map kont (pending (start w))
                        = map kont (pending w)
                          @ replicate (length (heart_timers (Awaited PlaySequence) w))
                              (HeartSpawn (Awaited PlaySequence))
                          @ [ShowSlideTransition (Awaited PlaySequence) 0
                               (currentSlide (state w))])))
   \<and> currentSlide (state (resetSlides w)) = - 1
   \<and> restart w = start (resetSlides (stop w))
   \<and> currentSlide (state (resetSlides (stop w))) = - 1
   \<and> status (resetSlides (stop w)) = Idle
   \<and> (\<exists>v. currentSlide (state v) = - 1 \<and> status v = Idle
          \<and> (new_IntroSlides opts pg t0 draws = v
             \<or> new_IntroSlides opts pg t0 draws = start v))"
proof (intro conjI)
  show "isPlaying (state w) \<or> isCompleted (state w) \<longrightarrow> start w = w"
    by (auto simp: start_def)
next
  show "\<not> isPlaying (state w) \<and> \<not> isCompleted (state w) \<longrightarrow>
        status (start w) = Playing \<and> startTime (state (start w)) = Some (now w)
        \<and> (if length (messages (config w)) = 0
           then currentSlide (state (start w)) = currentSlide (state w)
              \<and> trace (start w) = trace w \<and> microtasks (start w) = microtasks w
              \<and> map kont (pending (start w)) = map kont (pending w) @ [FinalWait PlaySequence]
           else if slides w = []
           then currentSlide (state (start w)) = currentSlide (state w)
              \<and> trace (start w) = trace w \<and> pending (start w) = pending w
              \<and> microtasks (start w) = microtasks w @ [LoopResume PlaySequence 0]
           else currentSlide (state (start w)) = 0
              \<and> trace (start w) = trace w @ start_events w 0
              \<and> (if raises (onSlideStart (eventHandlers w)) 0
                 then pending (start w) = pending w
                    \<and> microtasks (start w) = microtasks w @ [LoopReject PlaySequence]
                 else microtasks (start w) = microtasks w
                    \<and> map kont (pending (start w))
                        = map kont (pending w)
                          @ replicate (length (heart_timers (Awaited PlaySequence) w))
                              (HeartSpawn (Awaited PlaySequence))
                          @ [ShowSlideTransition (Awaited PlaySequence) 0
                               (currentSlide (state w))]))"
    using start_running[of w] by blast
next
  show "currentSlide (state (resetSlides w)) = - 1" by (simp add: resetSlides_def)
next
  show "restart w = start (resetSlides (stop w))" by (simp add: restart_def)
next
  show "currentSlide (state (resetSlides (stop w))) = - 1" by (simp add: resetSlides_def)
next
  show "status (resetSlides (stop w)) = Idle" by (simp add: resetSlides_def stop_def status_def)
next
  show "\<exists>v. currentSlide (state v) = - 1 \<and> status v = Idle
          \<and> (new_IntroSlides opts pg t0 draws = v
             \<or> new_IntroSlides opts pg t0 draws = start v)"
    by (rule new_IntroSlides_cases)
qed

theorem start_effect_witness:
  "start (start demo) = start demo
   \<and> status (start demo) = Playing \<and> startTime (state (start demo)) = Some 0
   \<and> currentSlide (state (start demo)) = 0
   \<and> trace (start demo) = [SlideStart 0 (Some ''Hi'')]
   \<and> microtasks (start demo) = []
   \<and> map kont (pending (start demo))
       = [HeartSpawn (Awaited PlaySequence), HeartSpawn (Awaited PlaySequence),
          ShowSlideTransition (Awaited PlaySequence) 0 (- 1)]"
proof -
  have a: "\<not> isPlaying (state demo)" "\<not> isCompleted (state demo)"
    "\<not> raises (onSlideStart (eventHandlers demo)) 0" "now demo = 0"
    "length (messages (config demo)) \<noteq> 0" "slides demo \<noteq> []" "currentSlide (state demo) = - 1"
    "trace demo = []" "pending demo = []" "microtasks demo = []"
    "start_events demo 0 = [SlideStart 0 (Some ''Hi'')]"
    "length (heart_timers (Awaited PlaySequence) demo) = 2"
    by code_simp+
  have b: "isPlaying (state (start demo))" by code_simp
  have r: "replicate 2 x = [x, x]" for x :: kont by (simp add: numeral_2_eq_2)
  show ?thesis
    using start_effect[of demo] start_effect[of "start demo"] a b by (simp add: r)
qed

subsection \<open>The two play loops\<close>

lemma blur_simps [simp]:
  "config (blur w) = config w" "state (blur w) = state w"
  "eventHandlers (blur w) = eventHandlers w" "slides (blur w) = slides w"
  "sectionEl (blur w) = sectionEl w" "now (blur w) = now w"
  "nextTimer (blur w) = nextTimer w" "heartDelays (blur w) = heartDelays w"
  "heartCalls (blur w) = heartCalls w" "trace (blur w) = trace w"
  "pending (blur w) = map (\<lambda>t. t\<lparr>kont := as_play_kont (kont t)\<rparr>) (pending w)"
  "microtasks (blur w) = map as_play_job (microtasks w)"
  "message_at (blur w) = message_at w"
  by (simp_all add: blur_def message_at_def fun_eq_iff)










lemma config_addHeartEffect [simp]: "config (addHeartEffect c w) = config w"
  by (simp add: addHeartEffect_def)










lemma settled_simps [simp]:
  "state (loop_settled l r) = state (world_of r)"
  "completions (loop_settled l r) = completions (world_of r)"
  "broadcasts (loop_settled l r) = broadcasts (world_of r)"
  by (cases r; cases l; simp add: loop_settled_def completions_def broadcasts_def)+



section \<open>Properties of the typewriter reveal\<close>


lemma join_split_space: "join_space (split_space s) = s"
proof (induction s)
  case Nil
  show ?case by simp
next
  case (Cons c cs)
  show ?case
  proof (cases "split_space cs")
    case Nil
    with Cons show ?thesis by simp
  next
    case (Cons w ws)
    with Cons.IH show ?thesis
      by (cases ws) (auto split: if_splits)
  qed
qed

lemma textContent_set_textContent: "textContent (set_textContent s p) = s"
  by (simp add: textContent_def set_textContent_def)

lemma type_words_total:
  "childNodes p \<noteq> [] \<Longrightarrow>
   \<exists>p' ds. type_words active speed ws i p delays = Inr (p', ds) \<and> childNodes p' \<noteq> []"
proof (induction active speed ws i p delays rule: type_words.induct)
  case (1 active speed ws i p delays)
  show ?case
  proof (cases "i < length ws \<and> active i")
    case False
    with "1.prems" show ?thesis
      by (subst type_words.simps) auto
  next
    case True
    from "1.prems" obtain n ns where ch: "childNodes p = n # ns"
      by (cases "childNodes p") auto
    let ?p' = "p\<lparr>childNodes := set_node_text (join_space (take (i + 1) ws) @ '' '') n # ns\<rparr>"
    have s: "set_first_child_text (join_space (take (i + 1) ws) @ '' '') p = Inr ?p'"
      by (simp add: set_first_child_text_def ch)
    have "\<exists>p'' ds. type_words active speed ws (i + 1) ?p'
            (delays @ [word_delay speed (ws ! i)]) = Inr (p'', ds) \<and> childNodes p'' \<noteq> []"
      using True s by (intro "1.IH") auto
    then show ?thesis
      using True s by (subst type_words.simps) simp
  qed
qed

lemma type_words_delays:
  "childNodes p \<noteq> [] \<Longrightarrow> i \<le> length ws \<Longrightarrow>
   \<exists>p'. type_words (\<lambda>_. True) speed ws i p delays
          = Inr (p', delays @ map (word_delay speed) (drop i ws))"
proof (induction "\<lambda>_::nat. True" speed ws i p delays rule: type_words.induct)
  case (1 speed ws i p delays)
  show ?case
  proof (cases "i < length ws")
    case False
    with "1.prems" show ?thesis
      by (subst type_words.simps) auto
  next
    case True
    from "1.prems" obtain n ns where ch: "childNodes p = n # ns"
      by (cases "childNodes p") auto
    let ?p' = "p\<lparr>childNodes := set_node_text (join_space (take (i + 1) ws) @ '' '') n # ns\<rparr>"
    have s: "set_first_child_text (join_space (take (i + 1) ws) @ '' '') p = Inr ?p'"
      by (simp add: set_first_child_text_def ch)
    have "\<exists>p''. type_words (\<lambda>_. True) speed ws (i + 1) ?p'
            (delays @ [word_delay speed (ws ! i)])
          = Inr (p'', (delays @ [word_delay speed (ws ! i)]) @ map (word_delay speed) (drop (i + 1) ws))"
      using True s by (intro "1.hyps") auto
    moreover have "drop i ws = ws ! i # drop (i + 1) ws"
      using True by (simp add: Cons_nth_drop_Suc)
    ultimately show ?thesis
      using True s by (subst type_words.simps) simp
  qed
qed

text \<open>
  Claim C7.  For every paragraph, whatever the moments at which the active flag is cleared,
  \<^verbatim>\<open>animateParagraph\<close> ends without an exception and the text of the paragraph is then
  exactly the text it had when the reveal began.
\<close>

theorem animateParagraph_restores_text:
  "\<exists>p' delays. animateParagraph active typewriterSpeed p = Inr (p', delays)
                \<and> textContent p' = textContent p"
proof -
  let ?p3 = "(set_textContent [] (p\<lparr>p_visibility := ''visible'', p_opacity := ''1'',
                 p_transform := ''translateY(0)'',
                 p_transition := ''opacity 0.3s ease, transform 0.3s ease''\<rparr>))"
  let ?p3' = "?p3\<lparr>childNodes := childNodes ?p3 @ [cursor]\<rparr>"
  have "childNodes ?p3' \<noteq> []" by simp
  from type_words_total[OF this]
  obtain p4 ds where tw: "type_words active typewriterSpeed (split_space (textContent p)) 0 ?p3' [] = Inr (p4, ds)"
    by blast
  show ?thesis
    unfolding animateParagraph_def Let_def tw
    by (simp add: textContent_def set_textContent_def)
qed

theorem animateParagraph_restores_text_witness:
  "\<exists>p' delays. animateParagraph (\<lambda>i. i < 2) 50 letter_line = Inr (p', delays)
                \<and> textContent p' = ''My dear. You are loved''"
  using animateParagraph_restores_text [of "\<lambda>i. i < 2" 50 letter_line]
  by (simp add: letter_line_def textContent_def)

text \<open>
  Claim C8, as stated, fails: the word \<^verbatim>\<open>a.m\<close> does not end with terminal punctuation and
  its delay is tripled all the same.
\<close>

theorem word_delay_ends_with_counterexample:
  "word_delay 50 ''a.m'' \<noteq> (if ends_with_terminal ''a.m'' then 3 * 50 else 50)"
  by (simp add: word_delay_def includes_char_def ends_with_terminal_def)

text \<open>
  Claim C8, amended.  The delay of a word is three times \<^verbatim>\<open>typewriterSpeed\<close> when the word
  contains \<^verbatim>\<open>.\<close>, \<^verbatim>\<open>!\<close> or \<^verbatim>\<open>?\<close> anywhere, and \<^verbatim>\<open>typewriterSpeed\<close> otherwise; in
  particular it is tripled for a word that ends with one of them.  A reveal that is not
  aborted waits for exactly these delays, one for each word of the paragraph.
\<close>

theorem word_delay_includes:
  "word_delay typewriterSpeed word =
     (if \<exists>c \<in> set word. c = CHR ''.'' \<or> c = CHR ''!'' \<or> c = CHR ''?''
      then 3 * typewriterSpeed else typewriterSpeed)
   \<and> (ends_with_terminal word \<longrightarrow> word_delay typewriterSpeed word = 3 * typewriterSpeed)
   \<and> (\<exists>p'. animateParagraph (\<lambda>_. True) typewriterSpeed p
             = Inr (p', map (word_delay typewriterSpeed) (split_space (textContent p))))"
proof (intro conjI impI)
  show "word_delay typewriterSpeed word =
     (if \<exists>c \<in> set word. c = CHR ''.'' \<or> c = CHR ''!'' \<or> c = CHR ''?''
      then 3 * typewriterSpeed else typewriterSpeed)"
    by (auto simp: word_delay_def includes_char_def)
next
  assume "ends_with_terminal word"
  then have ne: "word \<noteq> []"
    and l: "last word = CHR ''.'' \<or> last word = CHR ''!'' \<or> last word = CHR ''?''"
    by (auto simp: ends_with_terminal_def)
  from ne have "last word \<in> set word" by (rule last_in_set)
  with l have "CHR ''.'' \<in> set word \<or> CHR ''!'' \<in> set word \<or> CHR ''?'' \<in> set word"
    by metis
  then show "word_delay typewriterSpeed word = 3 * typewriterSpeed"
    by (auto simp: word_delay_def includes_char_def)
next
  let ?p3 = "(set_textContent [] (p\<lparr>p_visibility := ''visible'', p_opacity := ''1'',
                 p_transform := ''translateY(0)'',
                 p_transition := ''opacity 0.3s ease, transform 0.3s ease''\<rparr>))"
  let ?p3' = "?p3\<lparr>childNodes := childNodes ?p3 @ [cursor]\<rparr>"
  have "childNodes ?p3' \<noteq> []" by simp
  from type_words_delays[OF this, of 0 "split_space (textContent p)" typewriterSpeed "[]"]
  obtain p4 where tw: "type_words (\<lambda>_. True) typewriterSpeed (split_space (textContent p)) 0 ?p3' []
      = Inr (p4, map (word_delay typewriterSpeed) (split_space (textContent p)))"
    by auto
  show "\<exists>p'. animateParagraph (\<lambda>_. True) typewriterSpeed p
             = Inr (p', map (word_delay typewriterSpeed) (split_space (textContent p)))"
    unfolding animateParagraph_def Let_def tw
    by simp
qed

theorem word_delay_includes_witness:
  "word_delay 50 ''e.g'' = 150 \<and> word_delay 50 ''dear.'' = 150 \<and> word_delay 50 ''dear'' = 50
   \<and> (\<exists>p'. animateParagraph (\<lambda>_. True) 50 letter_line = Inr (p', [50, 150, 50, 50, 50]))"
  using word_delay_includes [of 50 "''e.g''" letter_line]
        word_delay_includes [of 50 "''dear.''" letter_line]
        word_delay_includes [of 50 "''dear''" letter_line]
  by (simp add: ends_with_terminal_def letter_line_def textContent_def word_delay_def includes_char_def)

end
